theory Spec2Isabelle
  imports Main "HOL-Library.AList" "HOL-Library.Sublist"
begin

section \<open>Python values and exceptions\<close>

text \<open>
  The script \<^verbatim>\<open>metrics/foundations_sru.py\<close> is embedded function by function. Every
  exception the script can raise or catch is a value of \<open>error\<close>; a function that may
  raise returns \<open>error + 'a\<close> with \<open>Inl\<close> for the exception. \<open>URLError\<close> and
  \<open>TransportError\<close> stand for failures of the report download and of the Launchpad
  and gateway services.
\<close>

datatype error =
  ValueError | IndexError | TypeError | KeyError | AttributeError
  | HTMLParseError | URLError | TransportError

text \<open>
  A Python \<^verbatim>\<open>dict\<close> keeps its keys in insertion order, and assigning to a key that
  is present keeps the key's position: an association list with \<open>AList.update\<close>.
\<close>

type_synonym ('k, 'v) dict = "('k \<times> 'v) list"

definition setitem :: "'k \<Rightarrow> 'v \<Rightarrow> ('k, 'v) dict \<Rightarrow> ('k, 'v) dict" where
  "setitem k v d = AList.update k v d"

definition getitem :: "('k, 'v) dict \<Rightarrow> 'k \<Rightarrow> error + 'v" where
  "getitem d k = (case map_of d k of None \<Rightarrow> Inl KeyError | Some v \<Rightarrow> Inr v)"

definition keys :: "('k, 'v) dict \<Rightarrow> 'k list" where
  "keys d = map fst d"

text \<open>\<^verbatim>\<open>list.remove(x)\<close>: removes the first element equal to \<open>x\<close>, ValueError if none.\<close>

definition list_remove :: "'a \<Rightarrow> 'a list \<Rightarrow> error + 'a list" where
  "list_remove x xs = (if x \<in> set xs then Inr (remove1 x xs) else Inl ValueError)"

text \<open>\<^verbatim>\<open>sub in s\<close> on strings is the test for a contiguous substring.\<close>

definition str_contains :: "string \<Rightarrow> string \<Rightarrow> bool" where
  "str_contains sub s = sublist sub s"

subsection \<open>\<^verbatim>\<open>int(s)\<close> on a string\<close>

text \<open>
  A character of the model is a code point below 256. \<^verbatim>\<open>int\<close> skips the whitespace
  around the number: the space and the characters 9 to 13, and the two Unicode spaces
  below 256, U+0085 and U+00A0, which it first turns into spaces. The characters 28 to
  31, whitespace for \<^verbatim>\<open>str.isspace\<close>, are not skipped. Then it accepts one sign and
  decimal digits, where single underscores may stand between digits. A string with
  more digits than \<^verbatim>\<open>sys.int_max_str_digits\<close>, 4300 unless configured otherwise, is
  refused. Anything that is refused is a ValueError.
\<close>

definition is_space :: "char \<Rightarrow> bool" where
  "is_space c = ((of_char c :: nat) = 32 \<or> (9 \<le> (of_char c :: nat) \<and> (of_char c :: nat) \<le> 13)
     \<or> (of_char c :: nat) = 133 \<or> (of_char c :: nat) = 160)"

definition is_digit :: "char \<Rightarrow> bool" where
  "is_digit c = (48 \<le> (of_char c :: nat) \<and> (of_char c :: nat) \<le> 57)"

definition digit_val :: "char \<Rightarrow> nat" where
  "digit_val c = of_char c - 48"

definition strip :: "string \<Rightarrow> string" where
  "strip s = rev (dropWhile is_space (rev (dropWhile is_space s)))"

definition int_max_str_digits :: nat where
  "int_max_str_digits = 4300"

fun digits_value :: "nat \<Rightarrow> string \<Rightarrow> nat option" where
  "digits_value acc [] = Some acc"
| "digits_value acc (c # cs) =
     (if is_digit c then digits_value (acc * 10 + digit_val c) cs
      else if c = CHR ''_'' then
        (case cs of
           [] \<Rightarrow> None
         | d # ds \<Rightarrow> if is_digit d then digits_value acc cs else None)
      else None)"

definition py_int :: "string \<Rightarrow> error + int" where
  "py_int s =
     (let t = strip s;
          neg = (case t of [] \<Rightarrow> False | c # r \<Rightarrow> c = CHR ''-'');
          body = (case t of [] \<Rightarrow> []
                  | c # r \<Rightarrow> if c = CHR ''-'' \<or> c = CHR ''+'' then r else t)
      in case body of
           [] \<Rightarrow> Inl ValueError
         | c # r \<Rightarrow>
            if is_digit c then
              (case digits_value 0 body of
                 None \<Rightarrow> Inl ValueError
               | Some n \<Rightarrow>
                  if length (filter is_digit body) > int_max_str_digits then Inl ValueError
                  else Inr (if neg then - int n else int n))
            else Inl ValueError)"

text \<open>\<^verbatim>\<open>int(x)\<close> where \<open>x\<close> may be \<^verbatim>\<open>None\<close>: \<^verbatim>\<open>int(None)\<close> is a TypeError.\<close>

definition py_int_opt :: "string option \<Rightarrow> error + int" where
  "py_int_opt x = (case x of None \<Rightarrow> Inl TypeError | Some s \<Rightarrow> py_int s)"

section \<open>Launchpad: series and upload queues\<close>

text \<open>
  A series is read through \<^verbatim>\<open>s.name\<close> and \<^verbatim>\<open>s.active\<close>; two series objects are
  \<^verbatim>\<open>==\<close> when they are the same Launchpad entry, which \<open>self_link\<close> identifies.
  A timestamp is a wall-clock reading in microseconds with an optional zone offset;
  \<^verbatim>\<open>replace(tzinfo=None)\<close> keeps the wall-clock reading and drops the zone.
  \<^verbatim>\<open>datetime.today()\<close> is a naive wall-clock reading, and the difference of two
  naive readings is a \<^verbatim>\<open>timedelta\<close>, whose \<^verbatim>\<open>days\<close> is the floor of the difference
  divided by one day.
\<close>

record lp_series =
  self_link :: string
  name :: string
  active :: bool

record distribution =
  series :: "lp_series list"
  current_series :: lp_series

record datetime =
  wall :: int
  tzinfo :: "int option"

record upload =
  date_created :: datetime

definition replace_tzinfo_None :: "datetime \<Rightarrow> int" where
  "replace_tzinfo_None d = wall d"

definition days :: "int \<Rightarrow> int" where
  "days td = td div 86400000000"

record launchpad =
  get_ubuntu :: "error + distribution"
  getPackageUploads :: "lp_series \<Rightarrow> string \<Rightarrow> string \<Rightarrow> error + upload list"
  today :: "lp_series \<Rightarrow> int"

subsection \<open>\<^verbatim>\<open>sru_queue_count\<close>\<close>

fun queue_loop ::
  "launchpad \<Rightarrow> lp_series list \<Rightarrow> (string, int) dict \<Rightarrow> error + (string, int) dict" where
  "queue_loop lp [] per_series = Inr per_series"
| "queue_loop lp (s # ss) per_series =
     (case getPackageUploads lp s ''Unapproved'' ''Proposed'' of
        Inl e \<Rightarrow> Inl e
      | Inr uploads \<Rightarrow> queue_loop lp ss (setitem (name s) (int (length uploads)) per_series))"

definition stable_series_of :: "distribution \<Rightarrow> error + lp_series list" where
  "stable_series_of ubuntu =
     list_remove (current_series ubuntu) (filter active (series ubuntu))"

definition sru_queue_count :: "launchpad \<Rightarrow> error + (string, int) dict" where
  "sru_queue_count lp =
     (case get_ubuntu lp of
        Inl e \<Rightarrow> Inl e
      | Inr ubuntu \<Rightarrow>
         (case stable_series_of ubuntu of
            Inl e \<Rightarrow> Inl e
          | Inr stable_series \<Rightarrow> queue_loop lp stable_series []))"

subsection \<open>\<^verbatim>\<open>sru_ages\<close>\<close>

record age_stats =
  oldest_age_in_days :: int
  ten_day_backlog_count :: int
  ten_day_backlog_age :: int

definition age_in_days :: "int \<Rightarrow> upload \<Rightarrow> int" where
  "age_in_days now u = days (now - replace_tzinfo_None (date_created u))"

text \<open>The loop over the uploads of one series; the state is
  \<open>(oldest_age_in_days, backlog_age, backlog_count)\<close>.\<close>

fun uploads_loop :: "int \<Rightarrow> upload list \<Rightarrow> int \<times> int \<times> int \<Rightarrow> int \<times> int \<times> int" where
  "uploads_loop now [] st = st"
| "uploads_loop now (u # us) (oldest, backlog_age, backlog_count) =
     (let age = age_in_days now u;
          oldest' = (if age > oldest then age else oldest)
      in if age > 10
         then uploads_loop now us (oldest', backlog_age + (age - 10), backlog_count + 1)
         else uploads_loop now us (oldest', backlog_age, backlog_count))"

definition series_stats :: "int \<Rightarrow> upload list \<Rightarrow> age_stats" where
  "series_stats now uploads =
     (case uploads_loop now uploads (0, 0, 0) of
        (oldest, backlog_age, backlog_count) \<Rightarrow>
          \<lparr>oldest_age_in_days = oldest,
           ten_day_backlog_count = backlog_count,
           ten_day_backlog_age = backlog_age\<rparr>)"

fun ages_loop ::
  "launchpad \<Rightarrow> lp_series list \<Rightarrow> (string, age_stats) dict \<Rightarrow> error + (string, age_stats) dict"
  where
  "ages_loop lp [] per_series = Inr per_series"
| "ages_loop lp (s # ss) per_series =
     (case getPackageUploads lp s ''Unapproved'' ''Proposed'' of
        Inl e \<Rightarrow> Inl e
      | Inr uploads \<Rightarrow>
          ages_loop lp ss (setitem (name s) (series_stats (today lp s) uploads) per_series))"

definition sru_ages :: "launchpad \<Rightarrow> error + (string, age_stats) dict" where
  "sru_ages lp =
     (case get_ubuntu lp of
        Inl e \<Rightarrow> Inl e
      | Inr ubuntu \<Rightarrow>
         (case stable_series_of ubuntu of
            Inl e \<Rightarrow> Inl e
          | Inr stable_series \<Rightarrow> ages_loop lp stable_series []))"

section \<open>The parsed report\<close>

text \<open>
  BeautifulSoup turns the report into a tree of tags and text nodes. A tag has a name,
  attributes and contents; the value of an attribute is a string or, for the
  multi-valued \<^verbatim>\<open>class\<close>, the list of its tokens. The document itself is the root
  tag. Only tags and text nodes are modelled.
\<close>

datatype attr_value = AttrStr string | AttrList "string list"

datatype element =
  NavigableString string
| Tag string "(string \<times> attr_value) list" "element list"

text \<open>\<^verbatim>\<open>x in v\<close> for an attribute value: substring of a string, member of a list.\<close>

fun py_in :: "string \<Rightarrow> attr_value \<Rightarrow> bool" where
  "py_in x (AttrStr s) = str_contains x s"
| "py_in x (AttrList l) = (x \<in> set l)"

fun is_tag :: "string \<Rightarrow> element \<Rightarrow> bool" where
  "is_tag n (NavigableString s) = False"
| "is_tag n (Tag m a cs) = (m = n)"

fun attrs :: "element \<Rightarrow> (string \<times> attr_value) list" where
  "attrs (NavigableString s) = []"
| "attrs (Tag m a cs) = a"

definition has_attr :: "element \<Rightarrow> string \<Rightarrow> bool" where
  "has_attr e k = (k \<in> set (keys (attrs e)))"

text \<open>\<^verbatim>\<open>tag[key]\<close>: KeyError when the tag has no such attribute.\<close>

definition tag_getitem :: "element \<Rightarrow> string \<Rightarrow> error + attr_value" where
  "tag_getitem e k = getitem (attrs e) k"

text \<open>All nodes below an element, in document order (the order of parsing).\<close>

fun descendants :: "element \<Rightarrow> element list" where
  "descendants (NavigableString s) = []"
| "descendants (Tag m a cs) = concat (map (\<lambda>c. c # descendants c) cs)"

definition findAll :: "element \<Rightarrow> string \<Rightarrow> element list" where
  "findAll e n = filter (is_tag n) (descendants e)"

text \<open>\<^verbatim>\<open>.text\<close>: all the strings below the element, concatenated.\<close>

fun get_text :: "element \<Rightarrow> string" where
  "get_text (NavigableString s) = s"
| "get_text (Tag m a cs) = concat (map get_text cs)"

text \<open>\<^verbatim>\<open>.string\<close>: the single string of a tag with exactly one child, looked up through
  nested single children; \<^verbatim>\<open>None\<close> otherwise.\<close>

fun element_string :: "element \<Rightarrow> string option" where
  "element_string (NavigableString s) = Some s"
| "element_string (Tag m a []) = None"
| "element_string (Tag m a [c]) = element_string c"
| "element_string (Tag m a (c # d # cs)) = None"

text \<open>
  \<^verbatim>\<open>.previous\<close> is the node parsed just before this one. A node is addressed by its
  position in the document order of the soup; the first node has no predecessor
  (\<^verbatim>\<open>None\<close>), and \<^verbatim>\<open>None.previous\<close> is an AttributeError.
\<close>

definition previous :: "element list \<Rightarrow> nat \<Rightarrow> (nat \<times> element) option" where
  "previous doc i = (if i = 0 then None else Some (i - 1, doc ! (i - 1)))"

definition previous_previous :: "element list \<Rightarrow> nat \<Rightarrow> error + element option" where
  "previous_previous doc i =
     (case previous doc i of
        None \<Rightarrow> Inl AttributeError
      | Some (j, p) \<Rightarrow> Inr (map_option snd (previous doc j)))"

text \<open>\<^verbatim>\<open>release == 'Upload queue status at a glance:'\<close>: only a text node can be equal
  to a string.\<close>

definition glance :: string where
  "glance = ''Upload queue status at a glance:''"

fun eq_str :: "element option \<Rightarrow> string \<Rightarrow> bool" where
  "eq_str (Some (NavigableString s)) t = (s = t)"
| "eq_str (Some (Tag m a cs)) t = False"
| "eq_str None t = False"

subsection \<open>\<^verbatim>\<open>sru_verified_and_ready_count\<close>\<close>

text \<open>The loop over the bug links of a row: \<open>Inr\<close> of the final \<^verbatim>\<open>verified\<close>.\<close>

fun bugs_loop :: "element list \<Rightarrow> error + bool" where
  "bugs_loop [] = Inr True"
| "bugs_loop (bug # bugs) =
     (case tag_getitem bug ''class'' of
        Inl e \<Rightarrow> Inl e
      | Inr c \<Rightarrow> if \<not> py_in ''verified'' c then Inr False else bugs_loop bugs)"

definition is_failure :: "string \<Rightarrow> bool" where
  "is_failure failure =
     (str_contains ''Failed'' failure \<or>
      str_contains ''Dependency wait'' failure \<or>
      str_contains ''Cancelled'' failure \<or>
      str_contains ''Regression in autopkgtest'' failure)"

text \<open>The body of the loop over the rows: \<open>Inr True\<close> when the row increments the
  count, \<open>Inr False\<close> when it leaves it, \<open>Inl\<close> when it raises.\<close>

definition row_ready :: "element \<Rightarrow> error + bool" where
  "row_ready tr =
     (let cols = findAll tr ''td'';
          len = length cols
      in if len = 0 then Inr False
         else if is_failure (get_text (cols ! 0)) then Inr False
         else if len \<le> 5 then Inl IndexError
         else
           (case py_int_opt (element_string (cols ! 5)) of
              Inl e \<Rightarrow> Inl e
            | Inr n \<Rightarrow>
               if n \<ge> 7 then bugs_loop (findAll (cols ! 4) ''a'') else Inr False))"

type_synonym ready_dict = "(element option, int) dict"

fun rows_loop :: "element option \<Rightarrow> element list \<Rightarrow> ready_dict \<Rightarrow> error + ready_dict" where
  "rows_loop release [] ready_srus = Inr ready_srus"
| "rows_loop release (tr # trs) ready_srus =
     (case row_ready tr of
        Inl e \<Rightarrow> Inl e
      | Inr False \<Rightarrow> rows_loop release trs ready_srus
      | Inr True \<Rightarrow>
         (case getitem ready_srus release of
            Inl e \<Rightarrow> Inl e
          | Inr c \<Rightarrow> rows_loop release trs (setitem release (c + 1) ready_srus)))"

text \<open>The body of the loop over the tables; a table comes with its position in the
  document order.\<close>

definition table_step :: "element list \<Rightarrow> nat \<times> element \<Rightarrow> ready_dict \<Rightarrow> error + ready_dict" where
  "table_step doc it ready_srus =
     (case it of (i, table) \<Rightarrow>
        if \<not> has_attr table ''id'' then Inr ready_srus
        else
          (case previous_previous doc i of
             Inl e \<Rightarrow> Inl e
           | Inr release \<Rightarrow>
              if eq_str release glance then Inr ready_srus
              else rows_loop release (findAll table ''tr'') (setitem release 0 ready_srus)))"

fun tables_loop :: "element list \<Rightarrow> (nat \<times> element) list \<Rightarrow> ready_dict \<Rightarrow> error + ready_dict" where
  "tables_loop doc [] ready_srus = Inr ready_srus"
| "tables_loop doc (it # its) ready_srus =
     (case table_step doc it ready_srus of
        Inl e \<Rightarrow> Inl e
      | Inr ready_srus' \<Rightarrow> tables_loop doc its ready_srus')"

text \<open>\<^verbatim>\<open>soup.findAll('table')\<close>, each table with its position in the document order.\<close>

definition find_tables :: "element list \<Rightarrow> (nat \<times> element) list" where
  "find_tables doc = filter (\<lambda>it. is_tag ''table'' (snd it)) (zip [0..<length doc] doc)"

definition count_ready :: "element \<Rightarrow> error + ready_dict" where
  "count_ready soup = (let doc = descendants soup in tables_loop doc (find_tables doc) [])"

text \<open>
  The download and the parser are services of the environment. The function returns
  its value (\<^verbatim>\<open>None\<close> after a caught HTMLParseError, the dictionary otherwise) or the
  exception it raises, together with the lines it logged.
\<close>

record web =
  urlopen_read :: "string \<Rightarrow> error + string"
  BeautifulSoup :: "string \<Rightarrow> string \<Rightarrow> error + element"

definition url :: string where
  "url = ''http://people.canonical.com/~ubuntu-archive/pending-sru.html''"

definition sru_verified_and_ready_count :: "web \<Rightarrow> (error + ready_dict option) \<times> string list" where
  "sru_verified_and_ready_count w =
     (case urlopen_read w url of
        Inl e \<Rightarrow> (Inl e, [])
      | Inr report_contents \<Rightarrow>
         (case BeautifulSoup w report_contents ''lxml'' of
            Inl e \<Rightarrow>
              if e = HTMLParseError then (Inr None, [''Error parsing SRU report''])
              else (Inl e, [])
          | Inr soup \<Rightarrow>
             (case count_ready soup of
                Inl e \<Rightarrow> (Inl e, [])
              | Inr ready_srus \<Rightarrow> (Inr (Some ready_srus), []))))"

section \<open>\<^verbatim>\<open>collect\<close>: the console report and the push\<close>

text \<open>
  A run prints lines, logs lines and calls the gateway. A printed line is a heading or
  a \<^verbatim>\<open>'%s: %s' % (key, value)\<close> line, kept as its key and value; a key is a series
  name or a release key of the report. A gauge holds its name, its documentation, its
  label names and the \<^verbatim>\<open>labels(key).set(value)\<close> calls made on it, in order. The
  registry is the list of its gauges in the order of their creation.
\<close>

datatype label = SeriesName string | ReleaseKey "element option"

datatype printed = Line string | Entry label int

record gauge =
  gauge_name :: string
  documentation :: string
  labelnames :: "string list"
  samples :: "(label \<times> int) list"

record effects =
  stdout :: "printed list"
  logged :: "string list"
  pushed :: "(string \<times> gauge list) list"

record world =
  lp :: launchpad
  www :: web
  push2gateway :: "string \<Rightarrow> gauge list \<Rightarrow> error + unit"

text \<open>\<^verbatim>\<open>s.replace(old, new)\<close>.\<close>

function str_replace :: "string \<Rightarrow> string \<Rightarrow> string \<Rightarrow> string" where
  "str_replace old new s =
     (if old = [] then new @ concat (map (\<lambda>c. c # new) s)
      else if s = [] then []
      else if prefix old s then new @ str_replace old new (drop (length old) s)
      else hd s # str_replace old new (tl s))"
  by pat_completeness auto
termination
  by (relation "measure (\<lambda>(old, new, s). length s)") auto

definition q_name :: string where
  "q_name = ''Proposed Uploads in the Unapproved Queue per Series''"

definition ready_title :: string where
  "ready_title = ''Number of Publishable Updates in Proposed per Series''"

definition series_entries :: "(string, int) dict \<Rightarrow> (label \<times> int) list" where
  "series_entries d = map (\<lambda>(k, v). (SeriesName k, v)) d"

definition stats_entries ::
  "(age_stats \<Rightarrow> int) \<Rightarrow> (string, age_stats) dict \<Rightarrow> (label \<times> int) list" where
  "stats_entries field d = map (\<lambda>(k, st). (SeriesName k, field st)) d"

definition release_entries :: "ready_dict \<Rightarrow> (label \<times> int) list" where
  "release_entries d = map (\<lambda>(k, v). (ReleaseKey k, v)) d"

definition print_entries :: "(label \<times> int) list \<Rightarrow> printed list" where
  "print_entries es = map (\<lambda>(k, v). Entry k v) es"

text \<open>What is printed before the loop over \<^verbatim>\<open>ready_srus.items()\<close>. A loop over the
  keys of \<^verbatim>\<open>sru_age_data\<close> that reads the value of each key is a loop over its items.\<close>

definition report_head ::
  "(string, int) dict \<Rightarrow> (string, age_stats) dict \<Rightarrow> printed list" where
  "report_head sru_queues sru_age_data =
     [Line (''Number of '' @ q_name @ '':'')] @
     print_entries (series_entries sru_queues) @
     [Line (''Age in days of oldest '' @ str_replace ''Uploads'' ''Upload'' q_name @ '':'')] @
     print_entries (stats_entries oldest_age_in_days sru_age_data) @
     [Line (''Backlog age in days of '' @ q_name @ '':'')] @
     print_entries (stats_entries ten_day_backlog_age sru_age_data) @
     [Line (''Number of backlogged '' @ q_name @ '':'')] @
     print_entries (stats_entries ten_day_backlog_count sru_age_data) @
     [Line (ready_title @ '':'')]"

definition make_registry ::
  "(string, int) dict \<Rightarrow> (string, age_stats) dict \<Rightarrow> ready_dict \<Rightarrow> gauge list" where
  "make_registry sru_queues sru_age_data ready_srus =
     [\<lparr>gauge_name = ''distro_sru_unapproved_proposed_count'',
       documentation = ''Number of '' @ q_name,
       labelnames = [''series''],
       samples = series_entries sru_queues\<rparr>,
      \<lparr>gauge_name = ''distro_sru_unapproved_proposed_oldest_age'',
       documentation = ''Age in days of oldest '' @ str_replace ''Uploads'' ''Upload'' q_name,
       labelnames = [''series''],
       samples = stats_entries oldest_age_in_days sru_age_data\<rparr>,
      \<lparr>gauge_name = ''distro_sru_unapproved_proposed_ten_day_backlog_age'',
       documentation = ''Backlog age in days of '' @ q_name,
       labelnames = [''series''],
       samples = stats_entries ten_day_backlog_age sru_age_data\<rparr>,
      \<lparr>gauge_name = ''distro_sru_unapproved_proposed_ten_day_backlog_count'',
       documentation = ''Number of backlogged '' @ q_name,
       labelnames = [''series''],
       samples = stats_entries ten_day_backlog_count sru_age_data\<rparr>,
      \<lparr>gauge_name = ''distro_sru_verified_and_ready_count'',
       documentation = ready_title,
       labelnames = [''series''],
       samples = release_entries ready_srus\<rparr>]"

text \<open>The part of \<^verbatim>\<open>collect\<close> after the three collectors have returned.
  \<^verbatim>\<open>ready_srus.items()\<close> on \<^verbatim>\<open>None\<close> is an AttributeError.\<close>

definition publish ::
  "world \<Rightarrow> bool \<Rightarrow> (string, int) dict \<Rightarrow> ready_dict option \<Rightarrow> (string, age_stats) dict \<Rightarrow>
   string list \<Rightarrow> (error + unit) \<times> effects" where
  "publish w dryrun sru_queues ready_srus sru_age_data lg =
     (case ready_srus of
        None \<Rightarrow>
          (Inl AttributeError,
           \<lparr>stdout = report_head sru_queues sru_age_data, logged = lg, pushed = []\<rparr>)
      | Some ready \<Rightarrow>
          (let out = report_head sru_queues sru_age_data @ print_entries (release_entries ready)
           in if dryrun then (Inr (), \<lparr>stdout = out, logged = lg, pushed = []\<rparr>)
              else
                (let registry = make_registry sru_queues sru_age_data ready
                 in (push2gateway w ''foundations-sru'' registry,
                     \<lparr>stdout = out @ [Line ''Pushing data...''], logged = lg,
                      pushed = [(''foundations-sru'', registry)]\<rparr>))))"

definition collect :: "world \<Rightarrow> bool \<Rightarrow> (error + unit) \<times> effects" where
  "collect w dryrun =
     (case sru_queue_count (lp w) of
        Inl e \<Rightarrow> (Inl e, \<lparr>stdout = [], logged = [], pushed = []\<rparr>)
      | Inr sru_queues \<Rightarrow>
         (case sru_verified_and_ready_count (www w) of
            (Inl e, lg) \<Rightarrow> (Inl e, \<lparr>stdout = [], logged = lg, pushed = []\<rparr>)
          | (Inr ready_srus, lg) \<Rightarrow>
             (case sru_ages (lp w) of
                Inl e \<Rightarrow> (Inl e, \<lparr>stdout = [], logged = lg, pushed = []\<rparr>)
              | Inr sru_age_data \<Rightarrow> publish w dryrun sru_queues ready_srus sru_age_data lg)))"

text \<open>The number of rows of a table that increment the count.\<close>

definition ready_rows :: "element \<Rightarrow> int" where
  "ready_rows table = int (length (filter (\<lambda>tr. row_ready tr = Inr True) (findAll table ''tr'')))"

section \<open>Concrete inputs\<close>

text \<open>
  A distribution with the development series \<open>devel\<close>, two stable series and one
  series that is no longer active. At the time of the run, \<open>xenial\<close> has uploads that
  are 3, 12 and 25 days old, and \<open>bionic\<close> has one upload whose creation time is one
  hour ahead of the local clock of the run.
\<close>

definition mk_upload :: "int \<Rightarrow> upload" where
  "mk_upload t = \<lparr>date_created = \<lparr>wall = t, tzinfo = Some 0\<rparr>\<rparr>"

definition devel :: lp_series where
  "devel = \<lparr>self_link = ''/ubuntu/devel'', name = ''devel'', active = True\<rparr>"
definition bionic :: lp_series where
  "bionic = \<lparr>self_link = ''/ubuntu/bionic'', name = ''bionic'', active = True\<rparr>"
definition xenial :: lp_series where
  "xenial = \<lparr>self_link = ''/ubuntu/xenial'', name = ''xenial'', active = True\<rparr>"
definition precise :: lp_series where
  "precise = \<lparr>self_link = ''/ubuntu/precise'', name = ''precise'', active = False\<rparr>"

definition example_ubuntu :: distribution where
  "example_ubuntu = \<lparr>series = [devel, bionic, xenial, precise], current_series = devel\<rparr>"

definition example_now :: int where
  "example_now = 100 * 86400000000"

definition example_uploads :: "lp_series \<Rightarrow> upload list" where
  "example_uploads s =
     (if s = xenial then
        [mk_upload (97 * 86400000000), mk_upload (88 * 86400000000), mk_upload (75 * 86400000000)]
      else if s = bionic then [mk_upload (100 * 86400000000 + 3600000000)]
      else [])"

definition example_lp :: launchpad where
  "example_lp =
     \<lparr>get_ubuntu = Inr example_ubuntu,
      getPackageUploads = (\<lambda>s status pocket. Inr (example_uploads s)),
      today = (\<lambda>s. example_now)\<rparr>"


text \<open>
  Pieces of a report: a row with its status cell, three version cells, the cell of bug
  links and the cell of days in proposed; a table with an \<^verbatim>\<open>id\<close>; a heading; a page
  with the \<^verbatim>\<open>html\<close> and \<^verbatim>\<open>body\<close> tags that the parser puts around the content.
\<close>

definition nl :: element where
  "nl = NavigableString [CHR 0x0A]"

definition td :: "element list \<Rightarrow> element" where
  "td cs = Tag ''td'' [] cs"

definition bug_link :: "string list \<Rightarrow> element" where
  "bug_link classes =
     Tag ''a'' [(''href'', AttrStr ''https://launchpad.net/bugs/1''), (''class'', AttrList classes)]
       [NavigableString ''1'']"


definition report_row :: "string \<Rightarrow> element list \<Rightarrow> string \<Rightarrow> element" where
  "report_row status bugs days_in_proposed =
     Tag ''tr'' []
       [td [NavigableString status], td [NavigableString ''1.0''], td [NavigableString ''1.1''],
        td [NavigableString ''1.2''], td bugs, td [NavigableString days_in_proposed]]"

definition header_row :: element where
  "header_row = Tag ''tr'' [] [Tag ''th'' [] [NavigableString ''Package'']]"

definition release_table :: "string \<Rightarrow> element list \<Rightarrow> element" where
  "release_table ident rows = Tag ''table'' [(''id'', AttrStr ident)] rows"

definition heading :: "string \<Rightarrow> element" where
  "heading s = Tag ''h3'' [] [NavigableString s]"

definition page :: "element list \<Rightarrow> element" where
  "page body = Tag ''[document]'' [] [Tag ''html'' [] [Tag ''body'' [] body]]"

definition row_hello :: element where
  "row_hello = report_row ''hello'' [bug_link [''verified''], bug_link [''verified'', ''kernel'']] ''7''"

definition row_six :: element where
  "row_six = report_row ''foo'' [bug_link [''verified'']] ''6''"

definition row_nobugs :: element where
  "row_nobugs = report_row ''bar'' [] ''12''"

definition row_unverified :: element where
  "row_unverified =
     report_row ''baz'' [bug_link [''verified''], bug_link [''verificationneeded'']] ''30''"

definition row_failed :: element where
  "row_failed = report_row ''Failed to build: qux'' [bug_link [''verified'']] ''30''"

definition row_cancelled :: element where
  "row_cancelled = Tag ''tr'' [] [td [NavigableString ''Cancelled'']]"

definition queues_table :: element where
  "queues_table = release_table ''queues'' [report_row ''x'' [] ''9'']"

definition legend_table :: element where
  "legend_table = Tag ''table'' [] [report_row ''legend'' [] ''30'']"

definition xenial_table :: element where
  "xenial_table =
     release_table ''xenial''
       [header_row, row_hello, row_six, row_nobugs, row_unverified, row_failed, row_cancelled]"

definition bionic_table :: element where
  "bionic_table = release_table ''bionic'' [header_row, row_six]"

definition xenial_table2 :: element where
  "xenial_table2 = release_table ''xenial2'' [header_row, report_row ''zip'' [] '' 8 '']"

definition example_report :: element where
  "example_report =
     page
      [heading glance, nl, queues_table, nl,
       legend_table, nl,
       heading ''xenial'', nl, xenial_table, nl,
       heading ''bionic'', nl, bionic_table, nl,
       heading ''xenial'', nl, xenial_table2]"

definition glance_page :: element where
  "glance_page = page [Tag ''p'' [] [NavigableString glance], release_table ''x'' []]"





definition upload_aged :: "int \<Rightarrow> upload" where
  "upload_aged n = mk_upload (example_now - n * 86400000000)"

text \<open>
  Services for a run: a web on which the report parses to the example report, a web
  whose download is not a report and parses to a single paragraph, and a Launchpad whose
  upload query fails. The dictionaries are what the three collectors return on the
  example inputs.
\<close>

definition example_web :: web where
  "example_web =
     \<lparr>urlopen_read = (\<lambda>u. Inr ''<html>''),
      BeautifulSoup = (\<lambda>markup features. Inr example_report)\<rparr>"


definition example_world :: world where
  "example_world = \<lparr>lp = example_lp, www = example_web, push2gateway = (\<lambda>job registry. Inr ())\<rparr>"


definition failing_lp :: launchpad where
  "failing_lp =
     \<lparr>get_ubuntu = Inr example_ubuntu,
      getPackageUploads = (\<lambda>s status pocket. Inl TransportError),
      today = (\<lambda>s. example_now)\<rparr>"

definition failing_world :: world where
  "failing_world = \<lparr>lp = failing_lp, www = example_web, push2gateway = (\<lambda>job registry. Inr ())\<rparr>"

definition example_queues :: "(string, int) dict" where
  "example_queues = [(''bionic'', 1), (''xenial'', 3)]"

definition example_ages :: "(string, age_stats) dict" where
  "example_ages =
     [(''bionic'', \<lparr>oldest_age_in_days = 0, ten_day_backlog_count = 0, ten_day_backlog_age = 0\<rparr>),
      (''xenial'', \<lparr>oldest_age_in_days = 25, ten_day_backlog_count = 2, ten_day_backlog_age = 17\<rparr>)]"

definition example_ready :: ready_dict where
  "example_ready = [(Some (NavigableString ''xenial''), 1), (Some (NavigableString ''bionic''), 0)]"


section \<open>Properties\<close>

subsection \<open>Reading integers\<close>

text \<open>Surrounding spaces, also U+00A0 and U+0085, a sign and single underscores are
  accepted; the character 28 is not skipped; more than 4300 digits are refused.\<close>

lemma py_int_examples:
  "py_int ''7'' = Inr 7 \<and> py_int '' 8 '' = Inr 8 \<and> py_int ''-12'' = Inr (- 12) \<and>
   py_int ''1_000'' = Inr 1000 \<and> py_int [CHR 0xA0, CHR ''8'', CHR 0x85] = Inr 8 \<and>
   py_int [CHR 0x1C, CHR ''8''] = Inl ValueError \<and> py_int ''n/a'' = Inl ValueError \<and>
   py_int ''1__0'' = Inl ValueError \<and> py_int ''+ 7'' = Inl ValueError \<and>
   py_int '''' = Inl ValueError"
  by code_simp

lemma py_int_digit_limit:
  "int_max_str_digits < length (filter is_digit (strip s)) \<Longrightarrow> py_int s = Inl ValueError"
proof -
  assume a: "int_max_str_digits < length (filter is_digit (strip s))"
  have sign: "\<not> is_digit (CHR ''-'')" "\<not> is_digit (CHR ''+'')"
    by (simp_all add: is_digit_def)
  show ?thesis
  proof (cases "strip s")
    case Nil
    then show ?thesis by (simp add: py_int_def)
  next
    case (Cons c r)
    show ?thesis
    proof (cases "c = CHR ''-'' \<or> c = CHR ''+''")
      case True
      then have "filter is_digit r = filter is_digit (strip s)"
        using Cons sign by auto
      then have "int_max_str_digits < length (filter is_digit r)"
        using a by simp
      then show ?thesis
        using Cons True by (auto simp: py_int_def Let_def split: list.splits option.splits)
    next
      case False
      then show ?thesis
        using Cons a by (auto simp: py_int_def Let_def split: list.splits option.splits)
    qed
  qed
qed

subsection \<open>Dictionaries built by a loop\<close>

lemma fold_setitem_keys:
  "fst ` set (fold (\<lambda>s d. setitem (f s) (g s) d) ss per) = fst ` set per \<union> f ` set ss"
proof (induction ss arbitrary: per)
  case Nil
  then show ?case by simp
next
  case (Cons x xs)
  have "fst ` set (setitem (f x) (g x) per) = {f x} \<union> fst ` set per"
    by (simp add: setitem_def AList.dom_update)
  then show ?case using Cons.IH [of "setitem (f x) (g x) per"] by auto
qed

lemma fold_setitem_other:
  "k \<notin> f ` set ss \<Longrightarrow> map_of (fold (\<lambda>s d. setitem (f s) (g s) d) ss per) k = map_of per k"
  by (induction ss arbitrary: per) (simp_all add: setitem_def AList.update_conv')

lemma fold_setitem_lookup:
  "distinct (map f ss) \<Longrightarrow> s \<in> set ss \<Longrightarrow>
   map_of (fold (\<lambda>s d. setitem (f s) (g s) d) ss per) (f s) = Some (g s)"
proof (induction ss arbitrary: per)
  case Nil
  then show ?case by simp
next
  case (Cons x xs)
  show ?case
  proof (cases "s = x")
    case True
    have "map_of (setitem (f x) (g x) per) (f x) = Some (g x)"
      by (simp add: setitem_def AList.update_conv')
    then show ?thesis using True Cons.prems
      by (simp add: fold_setitem_other)
  next
    case False
    then show ?thesis using Cons by simp
  qed
qed


subsection \<open>The queue and age loops\<close>

lemma Max_insert_max:
  "finite A \<Longrightarrow> Max (insert (max (x::int) y) A) = Max (insert x (insert y A))"
  by (cases "A = {}") (simp_all add: max.assoc)

lemma uploads_loop_eq:
  "uploads_loop now us (oldest, ba, bc) =
     (Max (insert oldest (set (map (age_in_days now) us))),
      ba + sum_list (map (\<lambda>a. a - 10) (filter (\<lambda>a. 10 < a) (map (age_in_days now) us))),
      bc + int (length (filter (\<lambda>a. 10 < a) (map (age_in_days now) us))))"
proof (induction us arbitrary: oldest ba bc)
  case Nil
  then show ?case by simp
next
  case (Cons u us)
  let ?a = "age_in_days now u"
  have m: "Max (insert (max oldest ?a) (age_in_days now ` set us))
      = Max (insert oldest (insert ?a (age_in_days now ` set us)))"
    by (rule Max_insert_max) simp
  have o: "(if oldest < ?a then ?a else oldest) = max oldest ?a"
    by (simp add: max_def)
  show ?case
  proof (cases "10 < ?a")
    case True
    then show ?thesis
      by (simp add: Let_def o Cons.IH m del: Max_insert)
  next
    case False
    then show ?thesis
      by (simp add: Let_def o Cons.IH m del: Max_insert)
  qed
qed


lemma queue_loop_fold:
  "\<forall>s\<in>set ss. getPackageUploads l s ''Unapproved'' ''Proposed'' = Inr (ups s) \<Longrightarrow>
   queue_loop l ss per = Inr (fold (\<lambda>s d. setitem (name s) (int (length (ups s))) d) ss per)"
  by (induction ss arbitrary: per) simp_all

lemma ages_loop_fold:
  "\<forall>s\<in>set ss. getPackageUploads l s ''Unapproved'' ''Proposed'' = Inr (ups s) \<Longrightarrow>
   ages_loop l ss per =
     Inr (fold (\<lambda>s d. setitem (name s) (series_stats (today l s) (ups s)) d) ss per)"
  by (induction ss arbitrary: per) simp_all

lemmas example_series_defs = devel_def bionic_def xenial_def precise_def

lemma example_stable: "stable_series_of example_ubuntu = Inr [bionic, xenial]"
  by (simp add: stable_series_of_def example_ubuntu_def list_remove_def example_series_defs)

lemma example_sru_ages: "sru_ages example_lp = Inr example_ages"
proof -
  have b: "series_stats example_now (example_uploads bionic) =
      \<lparr>oldest_age_in_days = 0, ten_day_backlog_count = 0, ten_day_backlog_age = 0\<rparr>"
    by (simp add: series_stats_def example_uploads_def example_now_def age_in_days_def
        mk_upload_def replace_tzinfo_None_def days_def example_series_defs)
  have x: "series_stats example_now (example_uploads xenial) =
      \<lparr>oldest_age_in_days = 25, ten_day_backlog_count = 2, ten_day_backlog_age = 17\<rparr>"
    by (simp add: series_stats_def example_uploads_def example_now_def age_in_days_def
        mk_upload_def replace_tzinfo_None_def days_def)
  have n: "name bionic = ''bionic''" "name xenial = ''xenial''"
    by (simp_all add: example_series_defs)
  show ?thesis
    unfolding sru_ages_def example_ages_def
    by (simp add: example_lp_def example_stable b x n setitem_def)
qed


subsection \<open>Age statistics\<close>

text \<open>
  C3 (amended). For every series that \<^verbatim>\<open>sru_ages\<close> loops over, with uploads whose ages
  in whole days are \<open>a\<^sub>1 \<dots> a\<^sub>n\<close>, the entry of the series holds
  \<open>oldest_age_in_days = max (0, a\<^sub>1, \<dots>, a\<^sub>n)\<close>, \<open>ten_day_backlog_count\<close> = the number
  of uploads with \<open>a\<^sub>i > 10\<close>, and \<open>ten_day_backlog_age\<close> = the sum of \<open>a\<^sub>i - 10\<close> over
  exactly those uploads. A series without uploads gets three zeros. The oldest age is
  \<open>max a\<^sub>i\<close> as soon as one age is not negative; an age is negative when the creation
  time, with its zone dropped, is ahead of the local clock.
\<close>

theorem sru_ages_stats:
  assumes u: "get_ubuntu l = Inr u"
    and ss: "stable_series_of u = Inr ss"
    and d: "distinct (map name ss)"
    and s: "s \<in> set ss"
    and ups: "\<forall>s\<in>set ss. getPackageUploads l s ''Unapproved'' ''Proposed'' = Inr (ups s)"
  shows "\<exists>per. sru_ages l = Inr per \<and>
           map_of per (name s) =
             Some \<lparr>oldest_age_in_days = Max (insert 0 (set (map (age_in_days (today l s)) (ups s)))),
                   ten_day_backlog_count =
                     int (length (filter (\<lambda>a. 10 < a) (map (age_in_days (today l s)) (ups s)))),
                   ten_day_backlog_age =
                     sum_list (map (\<lambda>a. a - 10)
                       (filter (\<lambda>a. 10 < a) (map (age_in_days (today l s)) (ups s))))\<rparr> \<and>
           (ups s = [] \<longrightarrow>
              map_of per (name s) =
                Some \<lparr>oldest_age_in_days = 0, ten_day_backlog_count = 0, ten_day_backlog_age = 0\<rparr>) \<and>
           ((\<exists>a\<in>set (map (age_in_days (today l s)) (ups s)). 0 \<le> a) \<longrightarrow>
              Max (insert 0 (set (map (age_in_days (today l s)) (ups s)))) =
              Max (set (map (age_in_days (today l s)) (ups s))))"
proof -
  let ?g = "\<lambda>s. series_stats (today l s) (ups s)"
  let ?per = "fold (\<lambda>s d. setitem (name s) (?g s) d) ss []"
  let ?ages = "map (age_in_days (today l s)) (ups s)"
  have run: "sru_ages l = Inr ?per"
    by (simp add: sru_ages_def u ss ages_loop_fold [OF ups])
  have look: "map_of ?per (name s) = Some (?g s)"
    by (rule fold_setitem_lookup [OF d s])
  have stats: "?g s =
      \<lparr>oldest_age_in_days = Max (insert 0 (set ?ages)),
       ten_day_backlog_count = int (length (filter (\<lambda>a. 10 < a) ?ages)),
       ten_day_backlog_age = sum_list (map (\<lambda>a. a - 10) (filter (\<lambda>a. 10 < a) ?ages))\<rparr>"
    by (simp add: series_stats_def uploads_loop_eq)
  have empty: "ups s = [] \<longrightarrow>
      ?g s = \<lparr>oldest_age_in_days = 0, ten_day_backlog_count = 0, ten_day_backlog_age = 0\<rparr>"
    by (simp add: series_stats_def)
  have mx: "(\<exists>a\<in>set ?ages. 0 \<le> a) \<longrightarrow> Max (insert 0 (set ?ages)) = Max (set ?ages)"
  proof
    assume "\<exists>a\<in>set ?ages. 0 \<le> a"
    then obtain a where a: "a \<in> set ?ages" "0 \<le> a" by blast
    then have ne: "set ?ages \<noteq> {}" by auto
    have "a \<le> Max (set ?ages)" using a(1) by (intro Max_ge) auto
    then have "0 \<le> Max (set ?ages)" using a(2) by linarith
    then show "Max (insert 0 (set ?ages)) = Max (set ?ages)"
      using ne by (simp add: max_def del: set_map)
  qed
  show ?thesis
    using run look stats empty mx by (intro exI [of _ ?per]) (simp del: set_map)
qed


lemma example_ups:
  "\<forall>s\<in>set [bionic, xenial].
     getPackageUploads example_lp s ''Unapproved'' ''Proposed'' = Inr (example_uploads s)"
  by (simp add: example_lp_def)

text \<open>The ages 3, 12 and 25 give the oldest age 25, two backlogged uploads and the
  backlog age \<open>(12 - 10) + (25 - 10) = 17\<close>.\<close>

theorem sru_ages_stats_witness:
  "\<exists>per. sru_ages example_lp = Inr per \<and>
         map_of per ''xenial'' =
           Some \<lparr>oldest_age_in_days = 25, ten_day_backlog_count = 2, ten_day_backlog_age = 17\<rparr>"
proof -
  have u: "get_ubuntu example_lp = Inr example_ubuntu"
    by (simp add: example_lp_def)
  have d: "distinct (map name [bionic, xenial])"
    by (simp add: example_series_defs)
  have s: "xenial \<in> set [bionic, xenial]"
    by simp
  have ages: "map (age_in_days (today example_lp xenial)) (example_uploads xenial) = [3, 12, 25]"
    by (simp add: example_lp_def example_uploads_def example_now_def age_in_days_def
        mk_upload_def replace_tzinfo_None_def days_def)
  have n: "name xenial = ''xenial''"
    by (simp add: xenial_def)
  from sru_ages_stats [OF u example_stable d s example_ups]
  obtain per where "sru_ages example_lp = Inr per"
    and "map_of per (name xenial) =
      Some \<lparr>oldest_age_in_days =
              Max (insert 0 (set (map (age_in_days (today example_lp xenial)) (example_uploads xenial)))),
            ten_day_backlog_count =
              int (length (filter (\<lambda>a. 10 < a)
                (map (age_in_days (today example_lp xenial)) (example_uploads xenial)))),
            ten_day_backlog_age =
              sum_list (map (\<lambda>a. a - 10) (filter (\<lambda>a. 10 < a)
                (map (age_in_days (today example_lp xenial)) (example_uploads xenial))))\<rparr>"
    by blast
  then show ?thesis
    unfolding ages n by simp
qed

text \<open>
  The single upload of \<open>bionic\<close> has the age \<open>-1\<close>, which is the maximum of the ages,
  and the oldest age reported for \<open>bionic\<close> is 0.
\<close>

theorem sru_ages_negative_age_counterexample:
  "map (age_in_days (today example_lp bionic)) (example_uploads bionic) = [- 1] \<and>
   Max (set (map (age_in_days (today example_lp bionic)) (example_uploads bionic))) = - 1 \<and>
   sru_ages example_lp =
     Inr [(''bionic'',
           \<lparr>oldest_age_in_days = 0, ten_day_backlog_count = 0, ten_day_backlog_age = 0\<rparr>),
          (''xenial'',
           \<lparr>oldest_age_in_days = 25, ten_day_backlog_count = 2, ten_day_backlog_age = 17\<rparr>)]"
proof -
  have ages: "map (age_in_days (today example_lp bionic)) (example_uploads bionic) = [- 1]"
    by (simp add: example_lp_def example_uploads_def example_now_def age_in_days_def
        mk_upload_def replace_tzinfo_None_def days_def example_series_defs)
  show ?thesis
    using ages example_sru_ages by (simp add: example_ages_def)
qed

subsection \<open>The series that are counted\<close>

text \<open>
  C8. When the current series is one of the active series of the distribution, the
  keys of the dictionaries returned by \<^verbatim>\<open>sru_queue_count\<close> and \<^verbatim>\<open>sru_ages\<close> are
  exactly the names of the active series other than the current series.
\<close>

theorem stable_series_keys:
  assumes u: "get_ubuntu l = Inr u"
    and dist: "distinct (series u)"
    and cur: "current_series u \<in> set (series u)"
    and act: "active (current_series u)"
    and ups: "\<forall>s\<in>set (series u). getPackageUploads l s ''Unapproved'' ''Proposed'' = Inr (ups s)"
  shows "\<exists>q a. sru_queue_count l = Inr q \<and> sru_ages l = Inr a \<and>
           set (keys q) = name ` ({s \<in> set (series u). active s} - {current_series u}) \<and>
           set (keys a) = name ` ({s \<in> set (series u). active s} - {current_series u})"
proof -
  let ?ss = "remove1 (current_series u) (filter active (series u))"
  have st: "stable_series_of u = Inr ?ss"
    using cur act by (simp add: stable_series_of_def list_remove_def)
  have set_ss: "set ?ss = {s \<in> set (series u). active s} - {current_series u}"
    using dist by (simp add: set_remove1_eq)
  have ups': "\<forall>s\<in>set ?ss. getPackageUploads l s ''Unapproved'' ''Proposed'' = Inr (ups s)"
    using ups set_ss by simp
  let ?q = "fold (\<lambda>s d. setitem (name s) (int (length (ups s))) d) ?ss []"
  let ?a = "fold (\<lambda>s d. setitem (name s) (series_stats (today l s) (ups s)) d) ?ss []"
  have q: "sru_queue_count l = Inr ?q"
    by (simp add: sru_queue_count_def u st queue_loop_fold [OF ups'])
  have a: "sru_ages l = Inr ?a"
    by (simp add: sru_ages_def u st ages_loop_fold [OF ups'])
  have kq: "set (keys ?q) = name ` set ?ss"
    using fold_setitem_keys [of name "\<lambda>s. int (length (ups s))" ?ss "[]"]
    by (simp add: keys_def)
  have ka: "set (keys ?a) = name ` set ?ss"
    using fold_setitem_keys [of name "\<lambda>s. series_stats (today l s) (ups s)" ?ss "[]"]
    by (simp add: keys_def)
  show ?thesis
    using q a kq ka set_ss by (intro exI [of _ ?q] exI [of _ ?a]) simp
qed

text \<open>With \<open>devel\<close>, \<open>bionic\<close> and \<open>xenial\<close> active and \<open>devel\<close> current, the keys are
  \<open>bionic\<close> and \<open>xenial\<close>.\<close>

theorem stable_series_keys_witness:
  "\<exists>q a. sru_queue_count example_lp = Inr q \<and> sru_ages example_lp = Inr a \<and>
         set (keys q) = {''bionic'', ''xenial''} \<and> set (keys a) = {''bionic'', ''xenial''}"
proof -
  have u: "get_ubuntu example_lp = Inr example_ubuntu"
    by (simp add: example_lp_def)
  have dist: "distinct (series example_ubuntu)"
    by (simp add: example_ubuntu_def example_series_defs)
  have cur: "current_series example_ubuntu \<in> set (series example_ubuntu)"
    by (simp add: example_ubuntu_def)
  have act: "active (current_series example_ubuntu)"
    by (simp add: example_ubuntu_def devel_def)
  have ups: "\<forall>s\<in>set (series example_ubuntu).
      getPackageUploads example_lp s ''Unapproved'' ''Proposed'' = Inr (example_uploads s)"
    by (simp add: example_lp_def)
  have f: "{s \<in> set (series example_ubuntu). active s} = set [devel, bionic, xenial]"
    unfolding set_filter [symmetric]
    by (simp add: example_ubuntu_def example_series_defs)
  have m: "set [devel, bionic, xenial] - {current_series example_ubuntu} = {bionic, xenial}"
    by (auto simp: example_ubuntu_def example_series_defs)
  have st: "name ` ({s \<in> set (series example_ubuntu). active s} - {current_series example_ubuntu})
      = {''bionic'', ''xenial''}"
    unfolding f m by (simp add: example_series_defs)
  show ?thesis
    using stable_series_keys [OF u dist cur act ups] unfolding st .
qed

text \<open>When the current series is not among the active series, \<^verbatim>\<open>remove\<close> raises
  and both functions end with ValueError.\<close>

lemma current_series_not_active:
  assumes "get_ubuntu l = Inr u"
    and "current_series u \<notin> set (filter active (series u))"
  shows "sru_queue_count l = Inl ValueError \<and> sru_ages l = Inl ValueError"
proof -
  have "stable_series_of u = Inl ValueError"
    unfolding stable_series_of_def list_remove_def using assms(2) by (rule if_not_P)
  then show ?thesis
    using assms(1) by (simp add: sru_queue_count_def sru_ages_def)
qed

subsection \<open>The report parser\<close>

lemma setitem_keys: "fst ` set (setitem k v d) = insert k (fst ` set d)"
  by (simp add: setitem_def AList.dom_update)

lemma setitem_lookup: "map_of (setitem k v d) k' = (if k' = k then Some v else map_of d k')"
  by (simp add: setitem_def AList.update_conv')

lemma setitem_twice: "setitem k v (setitem k v' d) = setitem k v d"
  by (simp add: setitem_def)

lemma setitem_same: "map_of d k = Some v \<Longrightarrow> setitem k v d = d"
  by (simp add: setitem_def AList.update_triv)

lemma bugs_loop_True_iff:
  "bugs_loop bugs = Inr True \<longleftrightarrow>
   (\<forall>bug\<in>set bugs. \<exists>c. tag_getitem bug ''class'' = Inr c \<and> py_in ''verified'' c)"
  by (induction bugs) (auto split: sum.splits)

lemma rows_loop_Inr:
  "rows_loop r trs d = Inr d' \<Longrightarrow> map_of d r = Some c \<Longrightarrow>
   d' = setitem r (c + int (length (filter (\<lambda>tr. row_ready tr = Inr True) trs))) d"
proof (induction trs arbitrary: d c)
  case Nil
  then show ?case by (simp add: setitem_same)
next
  case (Cons tr trs)
  show ?case
  proof (cases "row_ready tr")
    case (Inl e)
    then show ?thesis using Cons.prems by simp
  next
    case (Inr b)
    show ?thesis
    proof (cases b)
      case False
      then show ?thesis using Inr Cons by simp
    next
      case True
      have run: "rows_loop r trs (setitem r (c + 1) d) = Inr d'"
        using Cons.prems Inr True by (simp add: getitem_def)
      have look: "map_of (setitem r (c + 1) d) r = Some (c + 1)"
        by (simp add: setitem_lookup)
      show ?thesis
        using Cons.IH [OF run look] Inr True by (simp add: setitem_twice add.assoc)
    qed
  qed
qed

lemma rows_loop_rows_ok:
  "rows_loop r trs d = Inr d' \<Longrightarrow> tr \<in> set trs \<Longrightarrow> \<exists>b. row_ready tr = Inr b"
proof (induction trs arbitrary: d)
  case Nil
  then show ?case by simp
next
  case (Cons x xs)
  then show ?case
    by (cases "row_ready x") (auto split: bool.splits sum.splits)
qed

lemma table_step_no_id:
  "\<not> has_attr t ''id'' \<Longrightarrow> table_step doc (i, t) d = Inr d"
  by (simp add: table_step_def)

lemma table_step_qualifying:
  "has_attr t ''id'' \<Longrightarrow> previous_previous doc i = Inr r \<Longrightarrow> \<not> eq_str r glance \<Longrightarrow>
   table_step doc (i, t) d = rows_loop r (findAll t ''tr'') (setitem r 0 d)"
  by (simp add: table_step_def)

lemma table_step_result:
  assumes "has_attr t ''id''" "previous_previous doc i = Inr r" "\<not> eq_str r glance"
    and "table_step doc (i, t) d = Inr d'"
  shows "d' = setitem r (ready_rows t) d"
proof -
  have run: "rows_loop r (findAll t ''tr'') (setitem r 0 d) = Inr d'"
    using assms by (simp add: table_step_qualifying)
  have look: "map_of (setitem r 0 d) r = Some 0"
    by (simp add: setitem_lookup)
  show ?thesis
    using rows_loop_Inr [OF run look] by (simp add: setitem_twice ready_rows_def)
qed

lemma table_step_cases:
  assumes "table_step doc (i, t) d = Inr d'"
  shows "d' = d \<or>
    (\<exists>r. has_attr t ''id'' \<and> previous_previous doc i = Inr r \<and> \<not> eq_str r glance \<and>
         d' = setitem r (ready_rows t) d)"
proof (cases "has_attr t ''id''")
  case False
  then show ?thesis using assms by (simp add: table_step_no_id)
next
  case True
  show ?thesis
  proof (cases "previous_previous doc i")
    case (Inl e)
    then show ?thesis using assms True by (simp add: table_step_def)
  next
    case (Inr r)
    show ?thesis
    proof (cases "eq_str r glance")
      case True
      then show ?thesis using assms Inr \<open>has_attr t ''id''\<close> by (simp add: table_step_def)
    next
      case False
      then show ?thesis
        using table_step_result [OF \<open>has_attr t ''id''\<close> Inr False assms] True Inr by blast
    qed
  qed
qed

lemma tables_loop_append:
  "tables_loop doc (xs @ ys) d =
     (case tables_loop doc xs d of Inl e \<Rightarrow> Inl e | Inr d' \<Rightarrow> tables_loop doc ys d')"
  by (induction xs arbitrary: d) (simp_all split: sum.splits)

lemma tables_loop_keys_grow:
  "tables_loop doc its d = Inr m \<Longrightarrow> fst ` set d \<subseteq> fst ` set m"
proof (induction its arbitrary: d)
  case Nil
  then show ?case by simp
next
  case (Cons it its)
  obtain i t where it: "it = (i, t)" by (cases it)
  from Cons.prems obtain d' where step: "table_step doc (i, t) d = Inr d'"
    and rest: "tables_loop doc its d' = Inr m"
    by (auto simp: it split: sum.splits)
  from table_step_cases [OF step] have "fst ` set d \<subseteq> fst ` set d'"
  proof
    assume "d' = d"
    then show ?thesis by simp
  next
    assume "\<exists>r. has_attr t ''id'' \<and> previous_previous doc i = Inr r \<and> \<not> eq_str r glance \<and>
         d' = setitem r (ready_rows t) d"
    then obtain r where "d' = setitem r (ready_rows t) d" by blast
    then show ?thesis by (simp add: setitem_keys subset_insertI)
  qed
  then show ?case using Cons.IH [OF rest] by blast
qed

lemma tables_loop_keys_origin:
  "tables_loop doc its d = Inr m \<Longrightarrow> k \<in> fst ` set m \<Longrightarrow>
   k \<in> fst ` set d \<or>
   (\<exists>(i, t)\<in>set its. has_attr t ''id'' \<and> previous_previous doc i = Inr k \<and> \<not> eq_str k glance)"
proof (induction its arbitrary: d)
  case Nil
  then show ?case by simp
next
  case (Cons it its)
  obtain i t where it: "it = (i, t)" by (cases it)
  from Cons.prems obtain d' where step: "table_step doc (i, t) d = Inr d'"
    and rest: "tables_loop doc its d' = Inr m"
    by (auto simp: it split: sum.splits)
  from Cons.IH [OF rest Cons.prems(2)] show ?case
  proof
    assume k: "k \<in> fst ` set d'"
    from table_step_cases [OF step] show ?thesis
    proof
      assume "d' = d"
      then show ?thesis using k by simp
    next
      assume "\<exists>r. has_attr t ''id'' \<and> previous_previous doc i = Inr r \<and> \<not> eq_str r glance \<and>
         d' = setitem r (ready_rows t) d"
      then obtain r where r: "has_attr t ''id''" "previous_previous doc i = Inr r"
        "\<not> eq_str r glance" "d' = setitem r (ready_rows t) d" by blast
      show ?thesis
      proof (cases "k = r")
        case True
        then show ?thesis using r it by auto
      next
        case False
        then show ?thesis using k r(4) by (simp add: setitem_keys)
      qed
    qed
  next
    assume "\<exists>(i, t)\<in>set its. has_attr t ''id'' \<and> previous_previous doc i = Inr k \<and> \<not> eq_str k glance"
    then show ?thesis by auto
  qed
qed

lemma tables_loop_untouched:
  "tables_loop doc its d = Inr m \<Longrightarrow>
   \<forall>(j, t)\<in>set its. has_attr t ''id'' \<longrightarrow> previous_previous doc j \<noteq> Inr r \<Longrightarrow>
   map_of m r = map_of d r"
proof (induction its arbitrary: d)
  case Nil
  then show ?case by simp
next
  case (Cons it its)
  obtain i t where it: "it = (i, t)" by (cases it)
  from Cons.prems(1) obtain d' where step: "table_step doc (i, t) d = Inr d'"
    and rest: "tables_loop doc its d' = Inr m"
    by (auto simp: it split: sum.splits)
  have other: "has_attr t ''id'' \<longrightarrow> previous_previous doc i \<noteq> Inr r"
    using Cons.prems(2) it by auto
  have "map_of d' r = map_of d r"
    using table_step_cases [OF step] other by (auto simp: setitem_lookup)
  moreover have "map_of m r = map_of d' r"
    using Cons.IH [OF rest] Cons.prems(2) by auto
  ultimately show ?case by simp
qed


lemma previous_previous_ge2:
  "2 \<le> i \<Longrightarrow> previous_previous doc i = Inr (Some (doc ! (i - 2)))"
proof -
  assume i: "2 \<le> i"
  then have "i - 1 - 1 = i - 2" by simp
  with i show ?thesis
    by (simp add: previous_previous_def previous_def)
qed

lemma eq_str_Some: "eq_str (Some e) s \<longleftrightarrow> e = NavigableString s"
  by (cases e) auto

text \<open>
  C10. For a table with an \<^verbatim>\<open>id\<close> whose release key \<open>r\<close> is not the summary heading,
  the loop body sets the entry of \<open>r\<close> to 0 before it scans the rows, whatever the
  dictionary held. When the parser returns a dictionary, \<open>r\<close> is one of its keys, also
  when no row of the table counts; and when no later table with an \<^verbatim>\<open>id\<close> has the
  release key \<open>r\<close>, the entry of \<open>r\<close> is the number of counted rows of this table
  alone, whatever earlier tables with the same release key had counted.
\<close>

theorem ready_count_initialised:
  assumes run: "count_ready soup = Inr m"
    and ts: "find_tables (descendants soup) = before @ (i, t) # after"
    and ident: "has_attr t ''id''"
    and rel: "previous_previous (descendants soup) i = Inr r"
    and ng: "\<not> eq_str r glance"
  shows "(\<forall>d. table_step (descendants soup) (i, t) d =
               rows_loop r (findAll t ''tr'') (setitem r 0 d)) \<and>
         r \<in> set (keys m) \<and>
         ((\<forall>(j, t')\<in>set after.
              has_attr t' ''id'' \<longrightarrow> previous_previous (descendants soup) j \<noteq> Inr r) \<longrightarrow>
          map_of m r = Some (ready_rows t))"
proof -
  let ?doc = "descendants soup"
  have all: "tables_loop ?doc (before @ (i, t) # after) [] = Inr m"
    using run ts by (simp add: count_ready_def Let_def)
  then obtain d1 where d1: "tables_loop ?doc before [] = Inr d1"
    and rest: "tables_loop ?doc ((i, t) # after) d1 = Inr m"
    by (auto simp: tables_loop_append split: sum.splits)
  from rest obtain d2 where step: "table_step ?doc (i, t) d1 = Inr d2"
    and tail: "tables_loop ?doc after d2 = Inr m"
    by (auto split: sum.splits)
  have d2: "d2 = setitem r (ready_rows t) d1"
    by (rule table_step_result [OF ident rel ng step])
  have "r \<in> fst ` set d2"
    by (simp add: d2 setitem_keys)
  then have key: "r \<in> set (keys m)"
    using tables_loop_keys_grow [OF tail] by (auto simp: keys_def)
  have last: "(\<forall>(j, t')\<in>set after.
        has_attr t' ''id'' \<longrightarrow> previous_previous ?doc j \<noteq> Inr r) \<longrightarrow>
      map_of m r = Some (ready_rows t)"
  proof
    assume "\<forall>(j, t')\<in>set after. has_attr t' ''id'' \<longrightarrow> previous_previous ?doc j \<noteq> Inr r"
    then have "map_of m r = map_of d2 r"
      by (rule tables_loop_untouched [OF tail])
    then show "map_of m r = Some (ready_rows t)"
      by (simp add: d2 setitem_lookup)
  qed
  have init: "\<forall>d. table_step ?doc (i, t) d = rows_loop r (findAll t ''tr'') (setitem r 0 d)"
    using ident rel ng by (simp add: table_step_qualifying)
  show ?thesis
    using init key last by blast
qed

text \<open>In the example report the first table of \<open>xenial\<close> has two counted rows and
  the last one has one: the result for \<open>xenial\<close> is 1. The table of \<open>bionic\<close> has no
  counted row and \<open>bionic\<close> is a key.\<close>

theorem ready_count_initialised_witness:
  "\<exists>m. count_ready example_report = Inr m \<and>
       Some (NavigableString ''bionic'') \<in> set (keys m) \<and>
       ready_rows bionic_table = 0 \<and>
       ready_rows xenial_table = 2 \<and>
       ready_rows xenial_table2 = 1 \<and>
       map_of m (Some (NavigableString ''xenial'')) = Some 1"
proof -
  let ?doc = "descendants example_report"
  let ?m = "[(Some (NavigableString ''xenial''), 1 :: int), (Some (NavigableString ''bionic''), 0)]"
  have run: "count_ready example_report = Inr ?m"
    by code_simp
  have ts: "find_tables ?doc =
      [(5, queues_table), (19, legend_table), (36, xenial_table), (119, bionic_table)]
      @ (141, xenial_table2) # []"
    by code_simp
  have ident: "has_attr xenial_table2 ''id''"
    by code_simp
  have rel: "previous_previous ?doc 141 = Inr (Some (NavigableString ''xenial''))"
    by code_simp
  have ng: "\<not> eq_str (Some (NavigableString ''xenial'')) glance"
    by code_simp
  have rows: "ready_rows bionic_table = 0 \<and> ready_rows xenial_table = 2 \<and>
      ready_rows xenial_table2 = 1"
    by code_simp
  have bionic: "Some (NavigableString ''bionic'') \<in> set (keys ?m)"
    by (simp add: keys_def)
  from ready_count_initialised [OF run ts ident rel ng]
  have "map_of ?m (Some (NavigableString ''xenial'')) = Some (ready_rows xenial_table2)"
    by simp
  then show ?thesis
    using run rows bionic by simp
qed

text \<open>
  C4 (amended). A table without an \<^verbatim>\<open>id\<close> leaves the dictionary as it is. For a
  table with an \<^verbatim>\<open>id\<close> the release key is \<^verbatim>\<open>table.previous.previous\<close>, the node two
  steps before the table in document order (the text of the heading when exactly one
  text node, such as a line break, stands between the heading and the table); the table
  is skipped exactly when that node is a text node equal to
  \<open>Upload queue status at a glance:\<close>. With one node before the table the key is
  \<^verbatim>\<open>None\<close>, with no node before it the lookup raises AttributeError. Every key of the
  result is the release key of a table with an \<^verbatim>\<open>id\<close> that is not skipped, so the
  summary heading is never a key.
\<close>

theorem table_release_key:
  "(\<not> has_attr t ''id'' \<longrightarrow> table_step doc (i, t) d = Inr d) \<and>
   (has_attr t ''id'' \<and> 2 \<le> i \<longrightarrow>
      previous_previous doc i = Inr (Some (doc ! (i - 2))) \<and>
      table_step doc (i, t) d =
        (if doc ! (i - 2) = NavigableString glance then Inr d
         else rows_loop (Some (doc ! (i - 2))) (findAll t ''tr'')
                (setitem (Some (doc ! (i - 2))) 0 d))) \<and>
   (has_attr t ''id'' \<and> i = 1 \<longrightarrow>
      table_step doc (i, t) d = rows_loop None (findAll t ''tr'') (setitem None 0 d)) \<and>
   (has_attr t ''id'' \<and> i = 0 \<longrightarrow> table_step doc (i, t) d = Inl AttributeError) \<and>
   (count_ready soup = Inr m \<longrightarrow>
      Some (NavigableString glance) \<notin> set (keys m) \<and>
      (\<forall>k\<in>set (keys m). \<exists>(j, t')\<in>set (find_tables (descendants soup)).
          has_attr t' ''id'' \<and> previous_previous (descendants soup) j = Inr k \<and>
          \<not> eq_str k glance))"
proof -
  have a: "\<not> has_attr t ''id'' \<longrightarrow> table_step doc (i, t) d = Inr d"
    by (simp add: table_step_no_id)
  have b: "has_attr t ''id'' \<and> 2 \<le> i \<longrightarrow>
      previous_previous doc i = Inr (Some (doc ! (i - 2))) \<and>
      table_step doc (i, t) d =
        (if doc ! (i - 2) = NavigableString glance then Inr d
         else rows_loop (Some (doc ! (i - 2))) (findAll t ''tr'')
                (setitem (Some (doc ! (i - 2))) 0 d))"
    by (simp add: table_step_def previous_previous_ge2 eq_str_Some)
  have c: "has_attr t ''id'' \<and> i = 1 \<longrightarrow>
      table_step doc (i, t) d = rows_loop None (findAll t ''tr'') (setitem None 0 d)"
    by (simp add: table_step_def previous_previous_def previous_def)
  have e: "has_attr t ''id'' \<and> i = 0 \<longrightarrow> table_step doc (i, t) d = Inl AttributeError"
    by (simp add: table_step_def previous_previous_def previous_def)
  have f: "count_ready soup = Inr m \<longrightarrow>
      Some (NavigableString glance) \<notin> set (keys m) \<and>
      (\<forall>k\<in>set (keys m). \<exists>(j, t')\<in>set (find_tables (descendants soup)).
          has_attr t' ''id'' \<and> previous_previous (descendants soup) j = Inr k \<and>
          \<not> eq_str k glance)"
  proof
    assume run: "count_ready soup = Inr m"
    then have loop: "tables_loop (descendants soup) (find_tables (descendants soup)) [] = Inr m"
      by (simp add: count_ready_def Let_def)
    have origin: "\<forall>k\<in>set (keys m). \<exists>(j, t')\<in>set (find_tables (descendants soup)).
          has_attr t' ''id'' \<and> previous_previous (descendants soup) j = Inr k \<and>
          \<not> eq_str k glance"
    proof
      fix k assume "k \<in> set (keys m)"
      then have "k \<in> fst ` set m" by (simp add: keys_def)
      from tables_loop_keys_origin [OF loop this]
      show "\<exists>(j, t')\<in>set (find_tables (descendants soup)).
          has_attr t' ''id'' \<and> previous_previous (descendants soup) j = Inr k \<and>
          \<not> eq_str k glance"
        by simp
    qed
    have "Some (NavigableString glance) \<notin> set (keys m)"
    proof
      assume "Some (NavigableString glance) \<in> set (keys m)"
      with origin have "\<exists>(j, t')\<in>set (find_tables (descendants soup)).
          \<not> eq_str (Some (NavigableString glance)) glance"
        by fastforce
      then show False by simp
    qed
    with origin show "Some (NavigableString glance) \<notin> set (keys m) \<and>
      (\<forall>k\<in>set (keys m). \<exists>(j, t')\<in>set (find_tables (descendants soup)).
          has_attr t' ''id'' \<and> previous_previous (descendants soup) j = Inr k \<and>
          \<not> eq_str k glance)"
      by blast
  qed
  show ?thesis
    using a b c e f by blast
qed

text \<open>In the example report the table without \<^verbatim>\<open>id\<close> and the summary table leave
  the dictionary empty, and the first table of \<open>xenial\<close> is entered under the text of
  its heading.\<close>

theorem table_release_key_witness:
  "table_step (descendants example_report) (19, legend_table) [] = Inr [] \<and>
   descendants example_report ! 3 = NavigableString glance \<and>
   table_step (descendants example_report) (5, queues_table) [] = Inr [] \<and>
   descendants example_report ! 34 = NavigableString ''xenial'' \<and>
   table_step (descendants example_report) (36, xenial_table) [] =
     Inr [(Some (NavigableString ''xenial''), 2)] \<and>
   count_ready example_report =
     Inr [(Some (NavigableString ''xenial''), 1), (Some (NavigableString ''bionic''), 0)] \<and>
   Some (NavigableString glance) \<notin> set (keys
     [(Some (NavigableString ''xenial''), 1 :: int), (Some (NavigableString ''bionic''), 0)])"
proof -
  let ?doc = "descendants example_report"
  let ?m = "[(Some (NavigableString ''xenial''), 1 :: int), (Some (NavigableString ''bionic''), 0)]"
  have run: "count_ready example_report = Inr ?m"
    by code_simp
  have noid: "\<not> has_attr legend_table ''id''"
    by code_simp
  have idq: "has_attr queues_table ''id'' \<and> (2::nat) \<le> 5"
    by code_simp
  have idx: "has_attr xenial_table ''id'' \<and> (2::nat) \<le> 36"
    by code_simp
  have at3: "?doc ! 3 = NavigableString glance"
    by code_simp
  have at34: "?doc ! 34 = NavigableString ''xenial''"
    by code_simp
  have rows: "rows_loop (Some (NavigableString ''xenial'')) (findAll xenial_table ''tr'')
      (setitem (Some (NavigableString ''xenial'')) 0 []) = Inr [(Some (NavigableString ''xenial''), 2)]"
    by code_simp
  have ne: "NavigableString ''xenial'' \<noteq> NavigableString glance"
    by code_simp
  have s1: "table_step ?doc (19, legend_table) [] = Inr []"
    using table_release_key [of legend_table ?doc 19 "[]" example_report ?m] noid by blast
  have s2: "table_step ?doc (5, queues_table) [] = Inr []"
    using table_release_key [of queues_table ?doc 5 "[]" example_report ?m] idq at3 by simp
  have s3: "table_step ?doc (36, xenial_table) [] = Inr [(Some (NavigableString ''xenial''), 2)]"
    using table_release_key [of xenial_table ?doc 36 "[]" example_report ?m] idx at34 rows ne
    by simp
  have s4: "Some (NavigableString glance) \<notin> set (keys ?m)"
    using table_release_key [of xenial_table ?doc 36 "[]" example_report ?m] run by blast
  show ?thesis
    using s1 s2 s3 s4 at3 at34 run by blast
qed

text \<open>
  A table with an \<^verbatim>\<open>id\<close> directly after \<^verbatim>\<open><p>Upload queue status at a glance:</p>\<close>:
  the text node just before the table is the summary heading, the table is not skipped,
  and its key is the \<^verbatim>\<open>p\<close> tag, not a text node.
\<close>

theorem preceding_text_counterexample:
  "find_tables (descendants glance_page) = [(4, release_table ''x'' [])] \<and>
   has_attr (release_table ''x'' []) ''id'' \<and>
   descendants glance_page ! 3 = NavigableString ''Upload queue status at a glance:'' \<and>
   count_ready glance_page =
     Inr [(Some (Tag ''p'' [] [NavigableString ''Upload queue status at a glance:'']), 0)]"
  by code_simp

lemma find_tables_index:
  "(i, t) \<in> set (find_tables doc) \<Longrightarrow> i < length doc \<and> doc ! i = t"
  by (auto simp: find_tables_def in_set_zip)









lemma tag_getitem_error: "tag_getitem b k = Inl e \<Longrightarrow> e = KeyError"
  by (auto simp: tag_getitem_def getitem_def split: option.splits)

lemma bugs_loop_cases:
  "bugs_loop bugs = Inr True \<or> bugs_loop bugs = Inr False \<or> bugs_loop bugs = Inl KeyError"
proof (induction bugs)
  case Nil
  then show ?case by simp
next
  case (Cons b bs)
  show ?case
  proof (cases "tag_getitem b ''class''")
    case (Inl e)
    then have "e = KeyError" by (rule tag_getitem_error)
    with Inl show ?thesis by simp
  next
    case (Inr c)
    with Cons show ?thesis by auto
  qed
qed

lemma rows_loop_counted:
  "row_ready tr = Inr True \<Longrightarrow> map_of d r = Some c \<Longrightarrow>
   rows_loop r (tr # trs) d = rows_loop r trs (setitem r (c + 1) d)"
  by (simp add: getitem_def)

lemma rows_loop_skipped:
  "row_ready tr = Inr False \<Longrightarrow> rows_loop r (tr # trs) d = rows_loop r trs d"
  by simp

lemma rows_loop_raised:
  "row_ready tr = Inl e \<Longrightarrow> rows_loop r (tr # trs) d = Inl e"
  by simp

lemma eligible_row:
  assumes "5 < length (findAll tr ''td'')"
    and "\<not> is_failure (get_text (findAll tr ''td'' ! 0))"
    and "py_int_opt (element_string (findAll tr ''td'' ! 5)) = Inr n"
  shows "row_ready tr =
    (if 7 \<le> n then bugs_loop (findAll (findAll tr ''td'' ! 4) ''a'') else Inr False)"
proof -
  have ne: "findAll tr ''td'' \<noteq> []" "\<not> length (findAll tr ''td'') \<le> 5"
    using assms(1) by auto
  show ?thesis
    unfolding row_ready_def Let_def using ne assms(2,3) by simp
qed

lemma row_ready_True_days:
  "row_ready tr = Inr True \<Longrightarrow>
   \<exists>n. 5 < length (findAll tr ''td'') \<and>
       py_int_opt (element_string (findAll tr ''td'' ! 5)) = Inr n \<and> 7 \<le> n"
  by (auto simp: row_ready_def Let_def split: if_splits sum.splits)

lemma single_upload_stats:
  "series_stats now [u] =
     \<lparr>oldest_age_in_days = (if 0 < age_in_days now u then age_in_days now u else 0),
      ten_day_backlog_count = (if 10 < age_in_days now u then 1 else 0),
      ten_day_backlog_age = (if 10 < age_in_days now u then age_in_days now u - 10 else 0)\<rparr>"
  by (simp add: series_stats_def Let_def)

text \<open>
  C5. A row is counted, that is, the row loop raises the entry of the release by one,
  only if its sixth data cell reads as an integer that is at least 7. For a row with six
  cells and no failure marker whose sixth cell reads as \<open>n\<close>: below 7 the loop goes on
  with the dictionary unchanged; from 7 on, when the loop over the bug links says so, the
  loop goes on with the entry raised by one. The threshold is not the one of the age
  statistics: one upload is in the ten-day backlog exactly when its age is above 10.
\<close>

theorem soak_threshold:
  "(row_ready tr = Inr True \<longrightarrow>
      (\<exists>n. 5 < length (findAll tr ''td'') \<and>
           py_int_opt (element_string (findAll tr ''td'' ! 5)) = Inr n \<and> 7 \<le> n)) \<and>
   (map_of d r = Some c \<and> rows_loop r [tr] d = Inr d' \<and> map_of d' r \<noteq> Some c \<longrightarrow>
      map_of d' r = Some (c + 1) \<and>
      (\<exists>n. 5 < length (findAll tr ''td'') \<and>
           py_int_opt (element_string (findAll tr ''td'' ! 5)) = Inr n \<and> 7 \<le> n)) \<and>
   (5 < length (findAll tr ''td'') \<and> \<not> is_failure (get_text (findAll tr ''td'' ! 0)) \<and>
    py_int_opt (element_string (findAll tr ''td'' ! 5)) = Inr n \<and> map_of d r = Some c \<longrightarrow>
      (n < 7 \<longrightarrow>
         row_ready tr = Inr False \<and> rows_loop r (tr # trs) d = rows_loop r trs d) \<and>
      (7 \<le> n \<and> bugs_loop (findAll (findAll tr ''td'' ! 4) ''a'') = Inr True \<longrightarrow>
         row_ready tr = Inr True \<and>
         rows_loop r (tr # trs) d = rows_loop r trs (setitem r (c + 1) d))) \<and>
   ten_day_backlog_count (series_stats now [u]) = (if 10 < age_in_days now u then 1 else 0) \<and>
   ten_day_backlog_age (series_stats now [u]) =
     (if 10 < age_in_days now u then age_in_days now u - 10 else 0)"
proof -
  let ?cols = "findAll tr ''td''"
  have a: "row_ready tr = Inr True \<longrightarrow>
      (\<exists>n. 5 < length ?cols \<and> py_int_opt (element_string (?cols ! 5)) = Inr n \<and> 7 \<le> n)"
    using row_ready_True_days by blast
  have b: "map_of d r = Some c \<and> rows_loop r [tr] d = Inr d' \<and> map_of d' r \<noteq> Some c \<longrightarrow>
      map_of d' r = Some (c + 1) \<and>
      (\<exists>n. 5 < length ?cols \<and> py_int_opt (element_string (?cols ! 5)) = Inr n \<and> 7 \<le> n)"
  proof (intro impI, elim conjE)
    assume h: "map_of d r = Some c" "rows_loop r [tr] d = Inr d'" "map_of d' r \<noteq> Some c"
    from rows_loop_rows_ok [OF h(2)] obtain b where b: "row_ready tr = Inr b" by auto
    have t: "b"
    proof (rule ccontr)
      assume "\<not> b"
      then have "d' = d" using h(2) b by simp
      then show False using h(1,3) by simp
    qed
    have "d' = setitem r (c + 1) d"
      using h(1,2) b t by (simp add: getitem_def)
    then have "map_of d' r = Some (c + 1)"
      by (simp add: setitem_lookup)
    moreover have "row_ready tr = Inr True"
      using b t by simp
    then have "\<exists>n. 5 < length ?cols \<and>
        py_int_opt (element_string (?cols ! 5)) = Inr n \<and> 7 \<le> n"
      by (rule row_ready_True_days)
    ultimately show "map_of d' r = Some (c + 1) \<and>
      (\<exists>n. 5 < length ?cols \<and> py_int_opt (element_string (?cols ! 5)) = Inr n \<and> 7 \<le> n)"
      by blast
  qed
  have c: "5 < length ?cols \<and> \<not> is_failure (get_text (?cols ! 0)) \<and>
    py_int_opt (element_string (?cols ! 5)) = Inr n \<and> map_of d r = Some c \<longrightarrow>
      (n < 7 \<longrightarrow>
         row_ready tr = Inr False \<and> rows_loop r (tr # trs) d = rows_loop r trs d) \<and>
      (7 \<le> n \<and> bugs_loop (findAll (?cols ! 4) ''a'') = Inr True \<longrightarrow>
         row_ready tr = Inr True \<and>
         rows_loop r (tr # trs) d = rows_loop r trs (setitem r (c + 1) d))"
  proof (intro impI, elim conjE)
    assume h: "5 < length ?cols" "\<not> is_failure (get_text (?cols ! 0))"
      "py_int_opt (element_string (?cols ! 5)) = Inr n" "map_of d r = Some c"
    note row = eligible_row [OF h(1) h(2) h(3)]
    have lo: "n < 7 \<longrightarrow>
         row_ready tr = Inr False \<and> rows_loop r (tr # trs) d = rows_loop r trs d"
    proof
      assume "n < 7"
      then have "row_ready tr = Inr False" using row by simp
      then show "row_ready tr = Inr False \<and> rows_loop r (tr # trs) d = rows_loop r trs d"
        using rows_loop_skipped by blast
    qed
    have hi: "7 \<le> n \<and> bugs_loop (findAll (?cols ! 4) ''a'') = Inr True \<longrightarrow>
         row_ready tr = Inr True \<and>
         rows_loop r (tr # trs) d = rows_loop r trs (setitem r (c + 1) d)"
    proof
      assume "7 \<le> n \<and> bugs_loop (findAll (?cols ! 4) ''a'') = Inr True"
      then have "row_ready tr = Inr True" using row by simp
      then show "row_ready tr = Inr True \<and>
         rows_loop r (tr # trs) d = rows_loop r trs (setitem r (c + 1) d)"
        using rows_loop_counted [OF _ h(4)] by blast
    qed
    show "(n < 7 \<longrightarrow>
         row_ready tr = Inr False \<and> rows_loop r (tr # trs) d = rows_loop r trs d) \<and>
      (7 \<le> n \<and> bugs_loop (findAll (?cols ! 4) ''a'') = Inr True \<longrightarrow>
         row_ready tr = Inr True \<and>
         rows_loop r (tr # trs) d = rows_loop r trs (setitem r (c + 1) d))"
      using lo hi by blast
  qed
  have e: "ten_day_backlog_count (series_stats now [u]) = (if 10 < age_in_days now u then 1 else 0)"
    by (simp add: single_upload_stats)
  have f: "ten_day_backlog_age (series_stats now [u]) =
     (if 10 < age_in_days now u then age_in_days now u - 10 else 0)"
    by (simp add: single_upload_stats)
  show ?thesis
    using a b c e f by blast
qed

text \<open>A verified row with 7 days raises the entry from 0 to 1, a verified row with 6
  days leaves it at 0, and a table with both has the count 1. Uploads of age 7 and 10
  are not in the backlog, an upload of age 11 is, with the backlog age 1.\<close>

theorem soak_threshold_witness:
  "py_int_opt (element_string (findAll row_hello ''td'' ! 5)) = Inr 7 \<and>
   rows_loop None [row_hello] [(None, 0)] = Inr [(None, 1)] \<and>
   py_int_opt (element_string (findAll row_six ''td'' ! 5)) = Inr 6 \<and>
   rows_loop None [row_six] [(None, 0)] = Inr [(None, 0)] \<and>
   count_ready (page [heading ''xenial'', nl, release_table ''xenial'' [row_six, row_hello]]) =
     Inr [(Some (NavigableString ''xenial''), 1)] \<and>
   age_in_days example_now (upload_aged 7) = 7 \<and>
   ten_day_backlog_count (series_stats example_now [upload_aged 7]) = 0 \<and>
   age_in_days example_now (upload_aged 10) = 10 \<and>
   ten_day_backlog_count (series_stats example_now [upload_aged 10]) = 0 \<and>
   age_in_days example_now (upload_aged 11) = 11 \<and>
   ten_day_backlog_count (series_stats example_now [upload_aged 11]) = 1 \<and>
   ten_day_backlog_age (series_stats example_now [upload_aged 11]) = 1"
proof -
  have h: "5 < length (findAll row_hello ''td'') \<and>
      \<not> is_failure (get_text (findAll row_hello ''td'' ! 0)) \<and>
      py_int_opt (element_string (findAll row_hello ''td'' ! 5)) = Inr 7"
    by code_simp
  have hb: "bugs_loop (findAll (findAll row_hello ''td'' ! 4) ''a'') = Inr True"
    by code_simp
  have s: "5 < length (findAll row_six ''td'') \<and>
      \<not> is_failure (get_text (findAll row_six ''td'' ! 0)) \<and>
      py_int_opt (element_string (findAll row_six ''td'' ! 5)) = Inr 6"
    by code_simp
  have m: "map_of [(None :: element option, 0 :: int)] None = Some 0"
    by simp
  have u: "setitem (None :: element option) (0 + 1 :: int) [(None, 0)] = [(None, 1)]"
    by (simp add: setitem_def)
  have page: "count_ready (page [heading ''xenial'', nl,
      release_table ''xenial'' [row_six, row_hello]]) = Inr [(Some (NavigableString ''xenial''), 1)]"
    by code_simp
  have ages: "age_in_days example_now (upload_aged 7) = 7 \<and>
      age_in_days example_now (upload_aged 10) = 10 \<and>
      age_in_days example_now (upload_aged 11) = 11"
    by (simp add: age_in_days_def example_now_def upload_aged_def mk_upload_def
        replace_tzinfo_None_def days_def)
  have seven: "(7::int) \<le> 7" and six: "(6::int) < 7"
    by simp_all
  have "rows_loop None [row_hello] [(None, 0)] =
      rows_loop None [] (setitem None (0 + 1) [(None, 0)])"
    using soak_threshold [where tr = row_hello and n = 7 and d = "[(None, 0)]" and r = None
        and c = 0 and trs = "[]"] h hb m seven by blast
  then have r1: "rows_loop None [row_hello] [(None, 0)] = Inr [(None, 1)]"
    using u by simp
  have "rows_loop None [row_six] [(None, 0)] = rows_loop None [] [(None, 0)]"
    using soak_threshold [where tr = row_six and n = 6 and d = "[(None, 0)]" and r = None
        and c = 0 and trs = "[]"] s m six by blast
  then have r2: "rows_loop None [row_six] [(None, 0)] = Inr [(None, 0)]"
    by simp
  have b7: "ten_day_backlog_count (series_stats example_now [upload_aged 7]) = 0"
    using soak_threshold [where now = example_now and u = "upload_aged 7"] ages by simp
  have b10: "ten_day_backlog_count (series_stats example_now [upload_aged 10]) = 0"
    using soak_threshold [where now = example_now and u = "upload_aged 10"] ages by simp
  have b11: "ten_day_backlog_count (series_stats example_now [upload_aged 11]) = 1 \<and>
      ten_day_backlog_age (series_stats example_now [upload_aged 11]) = 1"
    using soak_threshold [where now = example_now and u = "upload_aged 11"] ages by simp
  show ?thesis
    using h s r1 r2 page ages b7 b10 b11 by blast
qed

text \<open>
  C6. A row with data cells whose first cell's text contains \<open>Failed\<close>,
  \<open>Dependency wait\<close>, \<open>Cancelled\<close> or \<open>Regression in autopkgtest\<close> is not counted,
  whatever its other cells are: the row loop goes on with the dictionary unchanged.
\<close>

theorem failure_row_excluded:
  assumes "findAll tr ''td'' \<noteq> []"
    and "str_contains ''Failed'' (get_text (findAll tr ''td'' ! 0)) \<or>
         str_contains ''Dependency wait'' (get_text (findAll tr ''td'' ! 0)) \<or>
         str_contains ''Cancelled'' (get_text (findAll tr ''td'' ! 0)) \<or>
         str_contains ''Regression in autopkgtest'' (get_text (findAll tr ''td'' ! 0))"
  shows "row_ready tr = Inr False \<and> rows_loop r (tr # trs) d = rows_loop r trs d"
proof -
  have "is_failure (get_text (findAll tr ''td'' ! 0))"
    using assms(2) by (simp add: is_failure_def)
  then have "row_ready tr = Inr False"
    using assms(1) by (simp add: row_ready_def Let_def)
  then show ?thesis by simp
qed

text \<open>A row of the single cell \<open>Cancelled\<close> and a verified row of 30 days whose
  status starts with \<open>Failed\<close> are not counted; the same verified row with another
  status is.\<close>

theorem failure_row_excluded_witness:
  "row_ready row_cancelled = Inr False \<and>
   row_ready row_failed = Inr False \<and>
   row_ready (report_row ''pkg'' [bug_link [''verified'']] ''30'') = Inr True \<and>
   rows_loop None [row_failed, row_nobugs] [(None, 0)] = rows_loop None [row_nobugs] [(None, 0)]"
proof -
  have c: "findAll row_cancelled ''td'' \<noteq> [] \<and>
      str_contains ''Cancelled'' (get_text (findAll row_cancelled ''td'' ! 0))"
    by code_simp
  have f: "findAll row_failed ''td'' \<noteq> [] \<and>
      str_contains ''Failed'' (get_text (findAll row_failed ''td'' ! 0))"
    by code_simp
  have ok: "row_ready (report_row ''pkg'' [bug_link [''verified'']] ''30'') = Inr True"
    by code_simp
  have r1: "row_ready row_cancelled = Inr False"
    using failure_row_excluded [where tr = row_cancelled] c by blast
  have r2: "row_ready row_failed = Inr False \<and>
      rows_loop None [row_failed, row_nobugs] [(None, 0)] = rows_loop None [row_nobugs] [(None, 0)]"
    using failure_row_excluded [where tr = row_failed and r = None and trs = "[row_nobugs]"
        and d = "[(None, 0)]"] f by blast
  show ?thesis
    using r1 r2 ok by blast
qed

text \<open>
  C7. For a row with six data cells, no failure marker and at least 7 days: when every
  bug link in its fifth data cell has a \<^verbatim>\<open>class\<close> that contains \<open>verified\<close>, the row
  loop goes on with the entry of the release raised by one; when one link lacks it, the
  row is not counted, whatever the other links are: the loop goes on with the dictionary
  unchanged, or ends with KeyError at a link without \<^verbatim>\<open>class\<close>. A row without bug
  links is counted.
\<close>

theorem verified_links:
  assumes "5 < length (findAll tr ''td'')"
    and "\<not> is_failure (get_text (findAll tr ''td'' ! 0))"
    and "py_int_opt (element_string (findAll tr ''td'' ! 5)) = Inr n"
    and "7 \<le> n"
    and "map_of d r = Some c"
  shows "((\<forall>bug\<in>set (findAll (findAll tr ''td'' ! 4) ''a'').
             \<exists>cl. tag_getitem bug ''class'' = Inr cl \<and> py_in ''verified'' cl) \<longrightarrow>
            row_ready tr = Inr True \<and>
            rows_loop r (tr # trs) d = rows_loop r trs (setitem r (c + 1) d)) \<and>
         (\<not> (\<forall>bug\<in>set (findAll (findAll tr ''td'' ! 4) ''a'').
             \<exists>cl. tag_getitem bug ''class'' = Inr cl \<and> py_in ''verified'' cl) \<longrightarrow>
            row_ready tr \<noteq> Inr True \<and>
            (rows_loop r (tr # trs) d = rows_loop r trs d \<or>
             rows_loop r (tr # trs) d = Inl KeyError)) \<and>
         (findAll (findAll tr ''td'' ! 4) ''a'' = [] \<longrightarrow>
            row_ready tr = Inr True \<and>
            rows_loop r (tr # trs) d = rows_loop r trs (setitem r (c + 1) d))"
proof -
  let ?links = "findAll (findAll tr ''td'' ! 4) ''a''"
  let ?all = "\<forall>bug\<in>set ?links. \<exists>cl. tag_getitem bug ''class'' = Inr cl \<and> py_in ''verified'' cl"
  have row: "row_ready tr = bugs_loop ?links"
    using eligible_row [OF assms(1) assms(2) assms(3)] assms(4) by simp
  have yes: "?all \<longrightarrow> row_ready tr = Inr True \<and>
      rows_loop r (tr # trs) d = rows_loop r trs (setitem r (c + 1) d)"
  proof
    assume ?all
    then have "row_ready tr = Inr True"
      using row by (simp add: bugs_loop_True_iff)
    then show "row_ready tr = Inr True \<and>
      rows_loop r (tr # trs) d = rows_loop r trs (setitem r (c + 1) d)"
      using rows_loop_counted [OF _ assms(5)] by blast
  qed
  have no: "\<not> ?all \<longrightarrow> row_ready tr \<noteq> Inr True \<and>
      (rows_loop r (tr # trs) d = rows_loop r trs d \<or> rows_loop r (tr # trs) d = Inl KeyError)"
  proof
    assume n: "\<not> ?all"
    then have nt: "row_ready tr \<noteq> Inr True"
      using row by (simp add: bugs_loop_True_iff)
    from bugs_loop_cases [of ?links] nt row
    have "row_ready tr = Inr False \<or> row_ready tr = Inl KeyError"
      by auto
    then have "rows_loop r (tr # trs) d = rows_loop r trs d \<or>
        rows_loop r (tr # trs) d = Inl KeyError"
      using rows_loop_skipped rows_loop_raised by blast
    with nt show "row_ready tr \<noteq> Inr True \<and>
      (rows_loop r (tr # trs) d = rows_loop r trs d \<or> rows_loop r (tr # trs) d = Inl KeyError)"
      by blast
  qed
  have none: "?links = [] \<longrightarrow> row_ready tr = Inr True \<and>
      rows_loop r (tr # trs) d = rows_loop r trs (setitem r (c + 1) d)"
  proof
    assume "?links = []"
    then have "?all" by simp
    with yes show "row_ready tr = Inr True \<and>
      rows_loop r (tr # trs) d = rows_loop r trs (setitem r (c + 1) d)"
      by blast
  qed
  show ?thesis
    using yes no none by blast
qed

text \<open>A row with one verified and one unverified link leaves the entry at 0; a row
  with two verified links and a row without links raise it to 1; a table with the three
  rows has the count 2.\<close>

theorem verified_links_witness:
  "findAll (findAll row_unverified ''td'' ! 4) ''a'' =
     [bug_link [''verified''], bug_link [''verificationneeded'']] \<and>
   row_ready row_unverified \<noteq> Inr True \<and>
   rows_loop None [row_unverified] [(None, 0)] = Inr [(None, 0)] \<and>
   rows_loop None [row_hello] [(None, 0)] = Inr [(None, 1)] \<and>
   rows_loop None [row_nobugs] [(None, 0)] = Inr [(None, 1)] \<and>
   count_ready (page [heading ''xenial'', nl,
     release_table ''xenial'' [row_unverified, row_hello, row_nobugs]]) =
     Inr [(Some (NavigableString ''xenial''), 2)]"
proof -
  have m: "map_of [(None :: element option, 0 :: int)] None = Some 0"
    by simp
  have u: "rows_loop None [] (setitem (None :: element option) (0 + 1 :: int) [(None, 0)]) =
      Inr [(None, 1)]"
    by (simp add: setitem_def)
  have un: "5 < length (findAll row_unverified ''td'') \<and>
      \<not> is_failure (get_text (findAll row_unverified ''td'' ! 0)) \<and>
      py_int_opt (element_string (findAll row_unverified ''td'' ! 5)) = Inr 30 \<and> (7::int) \<le> 30"
    by code_simp
  have ul: "findAll (findAll row_unverified ''td'' ! 4) ''a'' =
      [bug_link [''verified''], bug_link [''verificationneeded'']]"
    by code_simp
  have uc: "tag_getitem (bug_link [''verificationneeded'']) ''class'' =
        Inr (AttrList [''verificationneeded'']) \<and>
      \<not> py_in ''verified'' (AttrList [''verificationneeded''])"
    by code_simp
  have nall: "\<not> (\<forall>bug\<in>set (findAll (findAll row_unverified ''td'' ! 4) ''a'').
      \<exists>cl. tag_getitem bug ''class'' = Inr cl \<and> py_in ''verified'' cl)"
    unfolding ul using uc by auto
  have r1: "row_ready row_unverified \<noteq> Inr True"
    using verified_links [where tr = row_unverified and n = 30 and d = "[(None, 0)]"
        and r = None and c = 0 and trs = "[]"] un m nall by blast
  have r1': "rows_loop None [row_unverified] [(None, 0)] = Inr [(None, 0)]"
    by code_simp
  have h: "5 < length (findAll row_hello ''td'') \<and>
      \<not> is_failure (get_text (findAll row_hello ''td'' ! 0)) \<and>
      py_int_opt (element_string (findAll row_hello ''td'' ! 5)) = Inr 7 \<and> (7::int) \<le> 7"
    by code_simp
  have hlinks: "findAll (findAll row_hello ''td'' ! 4) ''a'' =
      [bug_link [''verified''], bug_link [''verified'', ''kernel'']]"
    by code_simp
  have hc: "tag_getitem (bug_link [''verified'']) ''class'' = Inr (AttrList [''verified'']) \<and>
      py_in ''verified'' (AttrList [''verified'']) \<and>
      tag_getitem (bug_link [''verified'', ''kernel'']) ''class'' =
        Inr (AttrList [''verified'', ''kernel'']) \<and>
      py_in ''verified'' (AttrList [''verified'', ''kernel''])"
    by code_simp
  have hall: "\<forall>bug\<in>set (findAll (findAll row_hello ''td'' ! 4) ''a'').
      \<exists>cl. tag_getitem bug ''class'' = Inr cl \<and> py_in ''verified'' cl"
    unfolding hlinks using hc by simp
  have "rows_loop None [row_hello] [(None, 0)] =
      rows_loop None [] (setitem None (0 + 1) [(None, 0)])"
    using verified_links [where tr = row_hello and n = 7 and d = "[(None, 0)]"
        and r = None and c = 0 and trs = "[]"] h m hall by blast
  then have r2: "rows_loop None [row_hello] [(None, 0)] = Inr [(None, 1)]"
    using u by simp
  have b: "5 < length (findAll row_nobugs ''td'') \<and>
      \<not> is_failure (get_text (findAll row_nobugs ''td'' ! 0)) \<and>
      py_int_opt (element_string (findAll row_nobugs ''td'' ! 5)) = Inr 12 \<and> (7::int) \<le> 12"
    by code_simp
  have bl: "findAll (findAll row_nobugs ''td'' ! 4) ''a'' = []"
    by code_simp
  have "rows_loop None [row_nobugs] [(None, 0)] =
      rows_loop None [] (setitem None (0 + 1) [(None, 0)])"
    using verified_links [where tr = row_nobugs and n = 12 and d = "[(None, 0)]"
        and r = None and c = 0 and trs = "[]"] b m bl by blast
  then have r3: "rows_loop None [row_nobugs] [(None, 0)] = Inr [(None, 1)]"
    using u by simp
  have page: "count_ready (page [heading ''xenial'', nl,
      release_table ''xenial'' [row_unverified, row_hello, row_nobugs]]) =
      Inr [(Some (NavigableString ''xenial''), 2)]"
    by code_simp
  show ?thesis
    using ul r1 r1' r2 r3 page by blast
qed

lemma example_queue_count: "sru_queue_count example_lp = Inr example_queues"
  unfolding sru_queue_count_def example_queues_def
  by (simp add: example_lp_def example_stable setitem_def example_uploads_def example_series_defs)

lemma example_count_ready: "count_ready example_report = Inr example_ready"
  unfolding example_ready_def by code_simp

lemma example_verified: "sru_verified_and_ready_count example_web = (Inr (Some example_ready), [])"
  by (simp add: sru_verified_and_ready_count_def example_web_def example_count_ready)

lemma failing_queue_count: "sru_queue_count failing_lp = Inl TransportError"
  unfolding sru_queue_count_def
  by (simp add: failing_lp_def example_stable)

subsection \<open>The run\<close>

text \<open>
  C9 (amended). In dry-run mode the gateway is never called. When the three collectors
  return their dictionaries, a dry run prints the report and pushes nothing, and a run
  that is not dry prints the same report, then \<open>Pushing data...\<close>, and calls the
  gateway exactly once, under the job name \<open>foundations-sru\<close>, with one registry that
  holds the five gauges and their values. When a collector raises, the run ends with
  that exception before anything is printed, and nothing is pushed.
\<close>

theorem collect_push:
  "pushed (snd (collect w True)) = [] \<and>
   (sru_queue_count (lp w) = Inr q \<and>
    sru_verified_and_ready_count (www w) = (Inr (Some r), lg) \<and>
    sru_ages (lp w) = Inr a \<longrightarrow>
      collect w True =
        (Inr (),
         \<lparr>stdout = report_head q a @ print_entries (release_entries r),
          logged = lg, pushed = []\<rparr>) \<and>
      collect w False =
        (push2gateway w ''foundations-sru'' (make_registry q a r),
         \<lparr>stdout = report_head q a @ print_entries (release_entries r) @ [Line ''Pushing data...''],
          logged = lg, pushed = [(''foundations-sru'', make_registry q a r)]\<rparr>) \<and>
      map gauge_name (make_registry q a r) =
        [''distro_sru_unapproved_proposed_count'',
         ''distro_sru_unapproved_proposed_oldest_age'',
         ''distro_sru_unapproved_proposed_ten_day_backlog_age'',
         ''distro_sru_unapproved_proposed_ten_day_backlog_count'',
         ''distro_sru_verified_and_ready_count''] \<and>
      map samples (make_registry q a r) =
        [series_entries q, stats_entries oldest_age_in_days a,
         stats_entries ten_day_backlog_age a, stats_entries ten_day_backlog_count a,
         release_entries r]) \<and>
   (sru_queue_count (lp w) = Inl e \<longrightarrow>
      collect w dryrun = (Inl e, \<lparr>stdout = [], logged = [], pushed = []\<rparr>)) \<and>
   (sru_queue_count (lp w) = Inr q \<and> sru_verified_and_ready_count (www w) = (Inl e, lg) \<longrightarrow>
      collect w dryrun = (Inl e, \<lparr>stdout = [], logged = lg, pushed = []\<rparr>)) \<and>
   (sru_queue_count (lp w) = Inr q \<and> sru_verified_and_ready_count (www w) = (Inr x, lg) \<and>
    sru_ages (lp w) = Inl e \<longrightarrow>
      collect w dryrun = (Inl e, \<lparr>stdout = [], logged = lg, pushed = []\<rparr>))"
proof -
  have dry: "pushed (snd (collect w True)) = []"
    by (simp add: collect_def publish_def Let_def split: sum.splits prod.splits option.splits)
  have ok: "sru_queue_count (lp w) = Inr q \<and>
    sru_verified_and_ready_count (www w) = (Inr (Some r), lg) \<and>
    sru_ages (lp w) = Inr a \<longrightarrow>
      collect w True =
        (Inr (),
         \<lparr>stdout = report_head q a @ print_entries (release_entries r),
          logged = lg, pushed = []\<rparr>) \<and>
      collect w False =
        (push2gateway w ''foundations-sru'' (make_registry q a r),
         \<lparr>stdout = report_head q a @ print_entries (release_entries r) @ [Line ''Pushing data...''],
          logged = lg, pushed = [(''foundations-sru'', make_registry q a r)]\<rparr>)"
    by (simp add: collect_def publish_def Let_def)
  have names: "map gauge_name (make_registry q a r) =
        [''distro_sru_unapproved_proposed_count'',
         ''distro_sru_unapproved_proposed_oldest_age'',
         ''distro_sru_unapproved_proposed_ten_day_backlog_age'',
         ''distro_sru_unapproved_proposed_ten_day_backlog_count'',
         ''distro_sru_verified_and_ready_count'']"
    by (simp add: make_registry_def)
  have vals: "map samples (make_registry q a r) =
        [series_entries q, stats_entries oldest_age_in_days a,
         stats_entries ten_day_backlog_age a, stats_entries ten_day_backlog_count a,
         release_entries r]"
    by (simp add: make_registry_def)
  have e1: "sru_queue_count (lp w) = Inl e \<longrightarrow>
      collect w dryrun = (Inl e, \<lparr>stdout = [], logged = [], pushed = []\<rparr>)"
    by (simp add: collect_def)
  have e2: "sru_queue_count (lp w) = Inr q \<and>
      sru_verified_and_ready_count (www w) = (Inl e, lg) \<longrightarrow>
      collect w dryrun = (Inl e, \<lparr>stdout = [], logged = lg, pushed = []\<rparr>)"
    by (simp add: collect_def)
  have e3: "sru_queue_count (lp w) = Inr q \<and>
      sru_verified_and_ready_count (www w) = (Inr x, lg) \<and> sru_ages (lp w) = Inl e \<longrightarrow>
      collect w dryrun = (Inl e, \<lparr>stdout = [], logged = lg, pushed = []\<rparr>)"
    by (simp add: collect_def)
  show ?thesis
    using dry ok names vals e1 e2 e3 by blast
qed

text \<open>On the example inputs both runs return, the dry run pushes nothing and the other
  run pushes the registry of five gauges once.\<close>

theorem collect_push_witness:
  "pushed (snd (collect example_world True)) = [] \<and>
   fst (collect example_world True) = Inr () \<and>
   stdout (snd (collect example_world True)) =
     report_head example_queues example_ages @ print_entries (release_entries example_ready) \<and>
   fst (collect example_world False) = Inr () \<and>
   stdout (snd (collect example_world False)) =
     report_head example_queues example_ages @ print_entries (release_entries example_ready) @
     [Line ''Pushing data...''] \<and>
   pushed (snd (collect example_world False)) =
     [(''foundations-sru'', make_registry example_queues example_ages example_ready)] \<and>
   length (make_registry example_queues example_ages example_ready) = 5"
proof -
  have q: "sru_queue_count (lp example_world) = Inr example_queues"
    by (simp add: example_world_def example_queue_count)
  have r: "sru_verified_and_ready_count (www example_world) = (Inr (Some example_ready), [])"
    by (simp add: example_world_def example_verified)
  have a: "sru_ages (lp example_world) = Inr example_ages"
    by (simp add: example_world_def example_sru_ages)
  have p: "push2gateway example_world ''foundations-sru''
      (make_registry example_queues example_ages example_ready) = Inr ()"
    by (simp add: example_world_def)
  have n: "length (make_registry example_queues example_ages example_ready) = 5"
    by (simp add: make_registry_def)
  from collect_push [where w = example_world and q = example_queues and r = example_ready
      and lg = "[]" and a = example_ages] q r a
  have "collect example_world True =
        (Inr (),
         \<lparr>stdout = report_head example_queues example_ages @
            print_entries (release_entries example_ready),
          logged = [], pushed = []\<rparr>)"
    and "collect example_world False =
        (push2gateway example_world ''foundations-sru''
           (make_registry example_queues example_ages example_ready),
         \<lparr>stdout = report_head example_queues example_ages @
            print_entries (release_entries example_ready) @ [Line ''Pushing data...''],
          logged = [],
          pushed = [(''foundations-sru'', make_registry example_queues example_ages example_ready)]\<rparr>)"
    by blast+
  then show ?thesis
    using p n by simp
qed

text \<open>A run that is not dry, on a Launchpad whose upload query fails: nothing is
  printed and the gateway is not called.\<close>

theorem collect_abort_counterexample:
  "collect failing_world False =
     (Inl TransportError, \<lparr>stdout = [], logged = [], pushed = []\<rparr>)"
  by (simp add: collect_def failing_world_def failing_queue_count)



subsection \<open>A report that does not parse\<close>

text \<open>
  The handler of \<^verbatim>\<open>sru_verified_and_ready_count\<close> catches HTMLParseError, logs and
  returns \<^verbatim>\<open>None\<close>, on which \<^verbatim>\<open>collect\<close> raises AttributeError. The lxml builder
  does not raise HTMLParseError, and from Python 3.5 on the name is the class defined
  by the script itself, so no document reaches the handler.
\<close>

lemma parse_error_handler:
  "urlopen_read (www w) url = Inr contents \<and>
   BeautifulSoup (www w) contents ''lxml'' = Inl HTMLParseError \<and>
   sru_queue_count (lp w) = Inr q \<and> sru_ages (lp w) = Inr a \<longrightarrow>
     sru_verified_and_ready_count (www w) = (Inr None, [''Error parsing SRU report'']) \<and>
     collect w dryrun =
       (Inl AttributeError,
        \<lparr>stdout = report_head q a, logged = [''Error parsing SRU report''], pushed = []\<rparr>)"
  by (simp add: collect_def publish_def sru_verified_and_ready_count_def)




end
